theory Spec2Isabelle
  imports Main "HOL-Library.AList"
begin

section \<open>Python text\<close>

text \<open>
  A Python \<open>str\<close> is a sequence of Unicode code points, so text is modelled as a list
  of natural numbers. \<open>lit\<close> turns an ASCII literal into such a list; the bullet glyph
  of the renderer (U+2022) lies outside ASCII and is the number 8226.
\<close>

type_synonym str = "nat list"

definition lit :: "string \<Rightarrow> str" where
  "lit cs = map of_char cs"

text \<open>\<open>s.startswith(p)\<close> and \<open>s.endswith(p)\<close>.\<close>

fun startswith :: "str \<Rightarrow> str \<Rightarrow> bool" where
  "startswith s [] = True"
| "startswith [] (p # ps) = False"
| "startswith (c # cs) (p # ps) = (c = p \<and> startswith cs ps)"

definition endswith :: "str \<Rightarrow> str \<Rightarrow> bool" where
  "endswith s p = startswith (rev s) (rev p)"

text \<open>\<open>sub in s\<close>: \<open>sub\<close> occurs in \<open>s\<close> at some position.\<close>

fun str_contains :: "str \<Rightarrow> str \<Rightarrow> bool" where
  "str_contains sub [] = (sub = [])"
| "str_contains sub (c # cs) = (startswith (c # cs) sub \<or> str_contains sub cs)"

text \<open>
  \<open>s.replace(old, new)\<close>: one scan from the left; at an occurrence of \<open>old\<close> the
  replacement is emitted and the scan goes on behind the occurrence, so the occurrences
  replaced do not overlap. With an empty \<open>old\<close> Python puts \<open>new\<close> before every
  character and at the end.
\<close>

fun replace_scan :: "str \<Rightarrow> str \<Rightarrow> str \<Rightarrow> str" where
  "replace_scan old new [] = []"
| "replace_scan old new (c # cs) =
     (if startswith (c # cs) old
      then new @ replace_scan old new (drop (length old - 1) cs)
      else c # replace_scan old new cs)"

definition str_replace :: "str \<Rightarrow> str \<Rightarrow> str \<Rightarrow> str" where
  "str_replace s old new =
     (if old = [] then new @ concat (map (\<lambda>c. c # new) s) else replace_scan old new s)"

text \<open>
  \<open>s.split(sep)\<close> for a separator of one character (the renderer splits at the line
  feed): the pieces between the separators, at least one piece, the empty string giving
  one empty piece. The components of a path, between its slashes, are split off the
  same way.
\<close>

fun str_split :: "str \<Rightarrow> nat \<Rightarrow> str list" where
  "str_split [] sep = [[]]"
| "str_split (c # cs) sep =
     (if c = sep then [] # str_split cs sep
      else (case str_split cs sep of [] \<Rightarrow> [[c]] | p # ps \<Rightarrow> (c # p) # ps))"

text \<open>
  \<open>s.strip()\<close> removes leading and trailing whitespace. The whitespace of a Python
  \<open>str\<close> is the set of code points for which \<open>str.isspace\<close> holds: the ASCII
  controls 9 to 13 and 28 to 31, the space, and the Unicode spaces and line separators.
\<close>

definition isspace :: "nat \<Rightarrow> bool" where
  "isspace c =
     ((9 \<le> c \<and> c \<le> 13) \<or> (28 \<le> c \<and> c \<le> 32) \<or> c = 133 \<or> c = 160 \<or> c = 5760 \<or>
      (8192 \<le> c \<and> c \<le> 8202) \<or> c = 8232 \<or> c = 8233 \<or> c = 8239 \<or> c = 8287 \<or>
      c = 12288)"

definition str_strip :: "str \<Rightarrow> str" where
  "str_strip s = rev (dropWhile isspace (rev (dropWhile isspace s)))"


section \<open>Exceptions\<close>

text \<open>
  The exception classes the modelled calls raise. Every one of them is a subclass of
  \<open>Exception\<close>, so an \<open>except Exception\<close> clause catches each; an
  \<open>except json.JSONDecodeError\<close> clause catches \<open>JSONDecodeError\<close> alone (none of the
  others is a subclass of it). \<open>NotFound\<close> is what \<open>abort(404, ...)\<close> raises.
\<close>

datatype exn =
    FileNotFoundError | NotADirectoryError | IsADirectoryError | PermissionError | OSError
  | ValueError | TypeError | UnicodeDecodeError | UnicodeEncodeError | RecursionError
  | JSONDecodeError | NotFound


section \<open>The PDF renderer\<close>

text \<open>
  \<open>save_to_pdf\<close> builds a list of reportlab flowables and hands it to
  \<open>SimpleDocTemplate.build\<close>. Page layout and the bytes of the PDF are reportlab's;
  the model is the list of flowables the function builds, which is the content of the
  document. \<open>Spacer w h\<close> stands for \<open>Spacer(w, h / 10 * inch)\<close>, so the spacer of
  the source, \<open>Spacer(1, 0.2 * inch)\<close>, is \<open>Spacer 1 2\<close>.
\<close>

datatype style = Title | Heading2 | Normal

datatype flowable = Paragraph str style | Spacer nat nat

record pdf =
  pdf_filename :: str
  pdf_elements :: "flowable list"

definition bullet :: nat where
  "bullet = 8226"

text \<open>
  \<open>Paragraph(text, style)\<close> reads its text as markup when the paragraph is
  constructed, and raises \<open>ValueError\<close> when the markup is malformed: a tag that is
  not closed, a closing tag without its opening tag. The parser is reportlab's and is
  a parameter of the model, \<open>para_parses\<close>. Two facts about it are part of the
  model: text in which neither \<open><\<close> nor \<open>&\<close> occurs is accepted, and so is such
  text between \<open><b>\<close> and \<open></b>\<close>. On every other text the parameter decides.
\<close>

record reportlab =
  para_parses :: "str \<Rightarrow> bool"

definition plain_text :: "str \<Rightarrow> bool" where
  "plain_text s = (60 \<notin> set s \<and> 38 \<notin> set s)"

definition bold_plain :: "str \<Rightarrow> bool" where
  "bold_plain s =
     (startswith s (lit ''<b>'') \<and> endswith s (lit ''</b>'') \<and> 7 \<le> length s
      \<and> plain_text (take (length s - 7) (drop 3 s)))"

definition new_Paragraph :: "reportlab \<Rightarrow> str \<Rightarrow> style \<Rightarrow> exn + flowable" where
  "new_Paragraph L text style =
     (if plain_text text \<or> bold_plain text \<or> para_parses L text
      then Inr (Paragraph text style) else Inl ValueError)"

text \<open>
  The body of the loop over the lines: what one line appends to \<open>elements\<close>, or the
  exception that ends the loop. The line goes into the text of its paragraph as it is.
\<close>

definition append_line :: "reportlab \<Rightarrow> flowable list \<Rightarrow> str \<Rightarrow> exn + flowable list" where
  "append_line L elements line =
     (if str_contains (lit ''**'') line then
        (case new_Paragraph L (lit ''<b>'' @ str_replace line (lit ''**'') [] @ lit ''</b>'')
                Heading2 of
           Inl e \<Rightarrow> Inl e
         | Inr heading \<Rightarrow> Inr ((elements @ [Spacer 1 2]) @ [heading]))
      else if str_contains (lit ''-'') line then
        (case new_Paragraph L (bullet # lit '' '' @ str_replace line (lit ''-'') []) Normal of
           Inl e \<Rightarrow> Inl e
         | Inr item \<Rightarrow> Inr (elements @ [item]))
      else
        (case new_Paragraph L line Normal of
           Inl e \<Rightarrow> Inl e
         | Inr paragraph \<Rightarrow> Inr (elements @ [paragraph])))"

text \<open>The loop \<open>for line in text.split("\n")\<close>.\<close>

fun append_lines :: "reportlab \<Rightarrow> flowable list \<Rightarrow> str list \<Rightarrow> exn + flowable list" where
  "append_lines L elements [] = Inr elements"
| "append_lines L elements (line # lines) =
     (case append_line L elements line of
        Inl e \<Rightarrow> Inl e
      | Inr elements' \<Rightarrow> append_lines L elements' lines)"

text \<open>
  \<open>save_to_pdf\<close>: \<open>Inr\<close> the document handed to \<open>doc.build\<close>, or \<open>Inl\<close> the
  exception raised before.
\<close>

definition save_to_pdf :: "reportlab \<Rightarrow> str \<Rightarrow> str \<Rightarrow> exn + pdf" where
  "save_to_pdf L text filename =
     (let text = (if str_strip text = [] then lit ''No content available.'' else text) in
      case new_Paragraph L (lit ''<b>Resume</b>'') Title of
        Inl e \<Rightarrow> Inl e
      | Inr title \<Rightarrow>
          (case append_lines L [title, Spacer 1 2] (str_split text 10) of
             Inl e \<Rightarrow> Inl e
           | Inr elements \<Rightarrow> Inr \<lparr>pdf_filename = filename, pdf_elements = elements\<rparr>))"


section \<open>Paths and the file system\<close>

text \<open>
  \<open>os.path.join(a, b)\<close> of \<open>posixpath\<close>: a second part that starts with a slash
  replaces the first.
\<close>

definition os_path_join :: "str \<Rightarrow> str \<Rightarrow> str" where
  "os_path_join a b =
     (if startswith b (lit ''/'') then b
      else if a = [] \<or> endswith a (lit ''/'') then a @ b
      else a @ lit ''/'' @ b)"

text \<open>
  The file system is a table from locations to nodes. A location is the list of names
  from the root, so the root is \<open>[]\<close>; it is always a directory. \<open>cwd\<close> is the
  working directory of the process, which is taken to be the application's directory
  (Flask's \<open>send_file\<close> reads relative paths from there). Three fields stand for what
  the operating system decides and the program cannot see: \<open>deny_read\<close> and
  \<open>deny_write\<close> say where opening a file is refused (permissions, a read-only medium,
  a name too long; the model reports each as \<open>PermissionError\<close>), and \<open>accepts p b\<close>
  is what the medium stores when \<open>b\<close> is written to the file at \<open>p\<close>: \<open>b\<close> itself,
  or less when the write fails (no space left). Symbolic links are not modelled.
\<close>

datatype node = File "nat list" | Dir

record filesystem =
  cwd :: "str list"
  nodes :: "(str list \<times> node) list"
  deny_read :: "str list \<Rightarrow> bool"
  deny_write :: "str list \<Rightarrow> bool"
  accepts :: "str list \<Rightarrow> nat list \<Rightarrow> nat list"

definition node_at :: "filesystem \<Rightarrow> str list \<Rightarrow> node option" where
  "node_at d p = (if p = [] then Some Dir else map_of (nodes d) p)"

text \<open>
  Path resolution walks the components of a path. Every component is looked up in a
  directory, so the location walked so far must be one; an empty component and \<open>.\<close>
  stay, \<open>..\<close> goes to the parent (the root is its own parent). The location reached
  last is returned whether or not anything exists there.
\<close>

fun walk :: "filesystem \<Rightarrow> str list \<Rightarrow> str list \<Rightarrow> exn + str list" where
  "walk d cur [] = Inr cur"
| "walk d cur (c # cs) =
     (case node_at d cur of
        None \<Rightarrow> Inl FileNotFoundError
      | Some (File b) \<Rightarrow> Inl NotADirectoryError
      | Some Dir \<Rightarrow>
          if c = [] \<or> c = lit ''.'' then walk d cur cs
          else if c = lit ''..'' then walk d (butlast cur) cs
          else walk d (cur @ [c]) cs)"

text \<open>
  The empty path names nothing; Python refuses a path with a NUL character with
  \<open>ValueError\<close> before the operating system sees it.
\<close>

definition resolve :: "filesystem \<Rightarrow> str \<Rightarrow> exn + str list" where
  "resolve d path =
     (if path = [] then Inl FileNotFoundError
      else if 0 \<in> set path then Inl ValueError
      else walk d (if startswith path (lit ''/'') then [] else cwd d) (str_split path 47))"

text \<open>
  \<open>os.path.exists(path)\<close>: \<open>os.stat\<close> succeeds; \<open>OSError\<close> and \<open>ValueError\<close> are
  answered with \<open>False\<close>. A directory exists as much as a file does.
\<close>

definition os_path_exists :: "filesystem \<Rightarrow> str \<Rightarrow> bool" where
  "os_path_exists d path =
     (case resolve d path of Inl e \<Rightarrow> False | Inr p \<Rightarrow> node_at d p \<noteq> None)"

text \<open>
  \<open>open(path, "w")\<close> creates the file or truncates it: on success the file is there
  and empty. \<open>put_file\<close> is the content once the writes to the open file are flushed.
\<close>

definition open_w :: "filesystem \<Rightarrow> str \<Rightarrow> exn + str list \<times> filesystem" where
  "open_w d path =
     (case resolve d path of
        Inl e \<Rightarrow> Inl e
      | Inr p \<Rightarrow>
          (case node_at d p of
             Some Dir \<Rightarrow> Inl IsADirectoryError
           | _ \<Rightarrow>
               if deny_write d p then Inl PermissionError
               else Inr (p, d\<lparr>nodes := AList.update p (File []) (nodes d)\<rparr>)))"

definition put_file :: "filesystem \<Rightarrow> str list \<Rightarrow> nat list \<Rightarrow> filesystem" where
  "put_file d p b = d\<lparr>nodes := AList.update p (File (accepts d p b)) (nodes d)\<rparr>"

text \<open>\<open>open(path, "r")\<close> (or \<open>"rb"\<close>) and reading the file to its end.\<close>

definition open_r :: "filesystem \<Rightarrow> str \<Rightarrow> exn + nat list" where
  "open_r d path =
     (case resolve d path of
        Inl e \<Rightarrow> Inl e
      | Inr p \<Rightarrow>
          (case node_at d p of
             None \<Rightarrow> Inl FileNotFoundError
           | Some Dir \<Rightarrow> Inl IsADirectoryError
           | Some (File b) \<Rightarrow> if deny_read d p then Inl PermissionError else Inr b))"

text \<open>
  \<open>os.listdir(path)\<close>: the names of the entries of a directory, in the order of the
  table (Python promises no order).
\<close>

definition os_listdir :: "filesystem \<Rightarrow> str \<Rightarrow> exn + str list" where
  "os_listdir d path =
     (case resolve d path of
        Inl e \<Rightarrow> Inl e
      | Inr p \<Rightarrow>
          (case node_at d p of
             None \<Rightarrow> Inl FileNotFoundError
           | Some (File b) \<Rightarrow> Inl NotADirectoryError
           | Some Dir \<Rightarrow>
               Inr (map last (filter (\<lambda>q. q \<noteq> [] \<and> butlast q = p)
                                (remdups (map fst (nodes d)))))))"


section \<open>The JSON library\<close>

text \<open>
  \<open>json.dump\<close> and \<open>json.load\<close> belong to Python's standard library, not to the
  program, and are parameters of the model. \<open>json_dump J v\<close> is what
  \<open>json.dump(v, f, indent=4)\<close> writes to a text file \<open>f\<close>, as bytes, and the
  exception that ends it if the value cannot be serialised (the bytes written until
  then stay in the file). \<open>json_load J b\<close> is what \<open>json.load(f)\<close> returns or raises
  on a text file holding the bytes \<open>b\<close>, decoding the bytes to text included. The value
  \<open>None\<close> is Python's \<open>None\<close>, which \<open>json.load\<close> returns for the document
  \<open>null\<close>.
\<close>

record 'v json_lib =
  json_dump :: "'v \<Rightarrow> nat list \<times> exn option"
  json_load :: "nat list \<Rightarrow> exn + 'v option"


section \<open>The document store\<close>

text \<open>
  The state the store works on: the file system and what has been printed to the
  console. \<open>Error_saving e\<close> is the line printed by the handler of
  \<open>save_resume_data\<close>, \<open>Error_loading filename\<close> the one printed by
  \<open>load_resume_data\<close>. Both lines begin with a warning sign (U+26A0, U+FE0F) and go
  on with text of the exception or of the path; \<open>print\<close> encodes the line in the
  encoding of the console and raises \<open>UnicodeEncodeError\<close> when the encoding has no
  code for one of its characters. Which lines the console can show is its own
  business: \<open>console_shows\<close>.
\<close>

datatype printed = Error_saving exn | Error_loading str

record world =
  disk :: filesystem
  console :: "printed list"
  console_shows :: "printed \<Rightarrow> bool"

text \<open>\<open>print(line)\<close>: the state with the line on the console, or the exception.\<close>

definition py_print :: "world \<Rightarrow> printed \<Rightarrow> exn + world" where
  "py_print w line =
     (if console_shows w line then Inr (w\<lparr>console := console w @ [line]\<rparr>)
      else Inl UnicodeEncodeError)"

definition SAVE_DIR :: str where
  "SAVE_DIR = lit ''saves''"

text \<open>
  The path both \<open>save_resume_data\<close> and \<open>load_resume_data\<close> compute first:
  \<open>os.path.join(SAVE_DIR, f"{name.replace(' ', '_')}_resume.json")\<close>.
\<close>

definition resume_filename :: "str \<Rightarrow> str" where
  "resume_filename name =
     os_path_join SAVE_DIR (str_replace name (lit '' '') (lit ''_'') @ lit ''_resume.json'')"

text \<open>
  The \<open>try\<close> block of \<open>save_resume_data\<close>: the file is opened for writing and the
  record dumped into it. The result is the exception that leaves the block, if any,
  and the state it leaves behind: once the file is open it has been truncated, and it
  holds what was written before the exception.
\<close>

definition save_try :: "'v json_lib \<Rightarrow> world \<Rightarrow> str \<Rightarrow> 'v \<Rightarrow> exn option \<times> world" where
  "save_try J w filename resume_data =
     (case open_w (disk w) filename of
        Inl e \<Rightarrow> (Some e, w)
      | Inr (p, d) \<Rightarrow>
          (case json_dump J resume_data of
             (b, raised) \<Rightarrow>
               (if accepts d p b \<noteq> b then Some OSError else raised,
                w\<lparr>disk := put_file d p b\<rparr>)))"

text \<open>
  \<open>save_resume_data\<close>: the \<open>except Exception\<close> clause prints the exception, and the
  function returns normally when the line has been printed. The \<open>print\<close> stands in
  the handler, outside every \<open>try\<close>, so what it raises leaves the function. The
  result is \<open>Inr\<close> the new state when the function returns and \<open>Inl\<close> an exception
  when it raises.
\<close>

definition save_resume_data :: "'v json_lib \<Rightarrow> world \<Rightarrow> str \<Rightarrow> 'v \<Rightarrow> exn + world" where
  "save_resume_data J w name resume_data =
     (let filename = resume_filename name in
      case save_try J w filename resume_data of
        (None, w') \<Rightarrow> Inr w'
      | (Some e, w') \<Rightarrow> py_print w' (Error_saving e))"

text \<open>
  \<open>load_resume_data\<close>: the value returned (\<open>Inr\<close>) or the exception raised
  (\<open>Inl\<close>), and the new state. Only \<open>json.JSONDecodeError\<close> is caught, and its
  handler prints before it returns \<open>None\<close>.
\<close>

definition load_resume_data ::
  "'v json_lib \<Rightarrow> world \<Rightarrow> str \<Rightarrow> (exn + 'v option) \<times> world" where
  "load_resume_data J w name =
     (let filename = resume_filename name in
      if os_path_exists (disk w) filename then
        (case open_r (disk w) filename of
           Inl e \<Rightarrow> (Inl e, w)
         | Inr b \<Rightarrow>
             (case json_load J b of
                Inr v \<Rightarrow> (Inr v, w)
              | Inl e \<Rightarrow>
                  if e = JSONDecodeError
                  then (case py_print w (Error_loading filename) of
                          Inl e' \<Rightarrow> (Inl e', w)
                        | Inr w' \<Rightarrow> (Inr None, w'))
                  else (Inl e, w)))
      else (Inr None, w))"

text \<open>\<open>get_saved_resumes\<close>: the list comprehension over \<open>os.listdir(SAVE_DIR)\<close>.\<close>

definition get_saved_resumes :: "world \<Rightarrow> exn + str list" where
  "get_saved_resumes w =
     (case os_listdir (disk w) SAVE_DIR of
        Inl e \<Rightarrow> Inl e
      | Inr files \<Rightarrow>
          Inr (map (\<lambda>file. str_replace (str_replace file (lit ''_resume.json'') [])
                             (lit ''_'') (lit '' ''))
                 (filter (\<lambda>file. endswith file (lit ''_resume.json'')) files)))"


section \<open>The download route\<close>

text \<open>
  \<open>send_file(filepath, as_attachment=True)\<close> opens the file and answers with its
  bytes as an attachment named after the last component of the path; the headers of
  the response are Flask's. As the view of the rule \<open>/download_resume/<filename>\<close> the
  function receives one segment of the URL; called as a function it takes any string,
  and that is what is modelled.
\<close>

datatype response = Attachment str "nat list"

definition send_file :: "filesystem \<Rightarrow> str \<Rightarrow> exn + response" where
  "send_file d path =
     (case open_r d path of
        Inl e \<Rightarrow> Inl e
      | Inr b \<Rightarrow> Inr (Attachment (last (str_split path 47)) b))"

definition download_resume :: "world \<Rightarrow> str \<Rightarrow> exn + response" where
  "download_resume w filename =
     (let filepath = os_path_join SAVE_DIR filename in
      if os_path_exists (disk w) filepath then send_file (disk w) filepath
      else Inl NotFound)"


section \<open>Compositions and the wording of the specification\<close>

text \<open>
  \<open>load(N)\<close> immediately after \<open>save(N, R)\<close>: the value \<open>load_resume_data\<close> returns
  (or the exception it raises) in the state \<open>save_resume_data\<close> leaves.
\<close>

definition load_after_save :: "'v json_lib \<Rightarrow> world \<Rightarrow> str \<Rightarrow> 'v \<Rightarrow> exn + 'v option" where
  "load_after_save J w name resume_data =
     (case save_resume_data J w name resume_data of
        Inl e \<Rightarrow> Inl e
      | Inr w' \<Rightarrow> fst (load_resume_data J w' name))"

text \<open>
  The store path as the specification words it: the store directory, a slash, the name
  with spaces replaced by underscores, and the suffix \<open>_resume.json\<close>.
\<close>

definition spec_store_path :: "str \<Rightarrow> str" where
  "spec_store_path name =
     SAVE_DIR @ lit ''/'' @ map (\<lambda>c. if c = 32 then 95 else c) name @ lit ''_resume.json''"

text \<open>
  The display name of a store file as the specification words it: the suffix removed
  and underscores replaced by spaces. A name normalised and then reconstructed: spaces
  replaced by underscores, then underscores by spaces.
\<close>

definition spec_display_name :: "str \<Rightarrow> str" where
  "spec_display_name file =
     map (\<lambda>c. if c = 95 then 32 else c) (take (length file - length (lit ''_resume.json'')) file)"

definition spec_reconstructed :: "str \<Rightarrow> str" where
  "spec_reconstructed name =
     map (\<lambda>c. if c = 95 then 32 else c) (map (\<lambda>c. if c = 32 then 95 else c) name)"


section \<open>A start state and a document for the examples\<close>

text \<open>
  The disk right after the application has started in \<open>/srv/resume\<close>: the store
  directory \<open>saves\<close> exists and is empty, nothing is refused, the medium stores
  what it is given and the console shows every line. \<open>example_json\<close> stands for the JSON library on the documents of
  the examples: the record \<open>jane\<close>, whose serialisation with \<open>indent=4\<close> is
  \<open>jane_document\<close>, and the single byte 129, which is not text in UTF-8, so that
  \<open>json.load\<close> raises \<open>UnicodeDecodeError\<close> when it reads the file. On every
  other value and document the stand-in answers with an error; the examples do not
  use them.
\<close>

definition app_dir :: "str list" where
  "app_dir = [lit ''srv'', lit ''resume'']"

definition fresh_disk :: filesystem where
  "fresh_disk =
     \<lparr>cwd = app_dir,
      nodes = [([lit ''srv''], Dir), (app_dir, Dir),
               (app_dir @ [lit ''app.py''], File (lit ''import os'')),
               (app_dir @ [lit ''saves''], Dir),
               ([lit ''tmp''], Dir)],
      deny_read = (\<lambda>p. False), deny_write = (\<lambda>p. False), accepts = (\<lambda>p b. b)\<rparr>"

definition fresh_world :: world where
  "fresh_world = \<lparr>disk = fresh_disk, console = [], console_shows = (\<lambda>line. True)\<rparr>"

definition jane :: "(str \<times> str) list" where
  "jane = [(lit ''name'', lit ''Jane Doe'')]"

definition jane_document :: "nat list" where
  "jane_document =
     lit ''{'' @ [10] @ lit ''    '' @ [34] @ lit ''name'' @ [34] @ lit '': ''
       @ [34] @ lit ''Jane Doe'' @ [34] @ [10] @ lit ''}''"

definition example_json :: "(str \<times> str) list json_lib" where
  "example_json =
     \<lparr>json_dump = (\<lambda>v. if v = jane then (jane_document, None) else ([], Some TypeError)),
      json_load = (\<lambda>b. if b = jane_document then Inr (Some jane)
                        else if b = [129] then Inl UnicodeDecodeError
                        else Inl JSONDecodeError)\<rparr>"

text \<open>
  \<open>example_reportlab\<close> stands for reportlab's parser on the two markups of the
  examples that are not plain, \<open><b>a</b>b</b>\<close> and a bullet item with
  \<open><i>unclosed\<close>: it rejects both, the first for its closing tag that closes nothing,
  the second for its tag that is never closed. The stand-in rejects every other text
  the model does not accept by itself; the examples do not use them.
\<close>

definition example_reportlab :: reportlab where
  "example_reportlab = \<lparr>para_parses = (\<lambda>text. False)\<rparr>"

text \<open>
  The start state with one more file in the store: \<open>saves/x_resume.json\<close>, holding
  the single byte 129.
\<close>

definition corrupt_world :: world where
  "corrupt_world =
     \<lparr>disk = fresh_disk\<lparr>nodes := nodes fresh_disk
               @ [(app_dir @ [lit ''saves'', lit ''x_resume.json''], File [129])]\<rparr>,
      console = [], console_shows = (\<lambda>line. True)\<rparr>"

text \<open>
  The start state on a console whose encoding has no code for the warning sign, ASCII
  for one: it shows neither of the two lines.
\<close>

definition ascii_world :: world where
  "ascii_world = fresh_world\<lparr>console_shows := (\<lambda>line. False)\<rparr>"

text \<open>
  The state after the record \<open>jane\<close> has been saved under each of the given names
  in turn, from the start state.
\<close>

definition after_saves :: "str list \<Rightarrow> world" where
  "after_saves names =
     foldl (\<lambda>w name. projr (save_resume_data example_json w name jane)) fresh_world names"


section \<open>Facts about the text operations\<close>

lemma lit_simps:
  "lit [] = []" "lit (c # cs) = of_char c # lit cs"
  by (simp_all add: lit_def)

lemma startswith_append: "startswith s p \<longleftrightarrow> (\<exists>r. s = p @ r)"
  by (induction s p rule: startswith.induct) auto

lemma startswith_pair: "startswith s [a, b] \<longleftrightarrow> (\<exists>r. s = a # b # r)"
  by (cases s; cases "tl s") auto

lemma startswith_refl: "startswith s s"
  by (simp add: startswith_append)

lemma endswith_append: "endswith s p \<longleftrightarrow> (\<exists>r. s = r @ p)"
proof
  assume "endswith s p"
  then obtain r where "rev s = rev p @ r"
    by (auto simp: endswith_def startswith_append)
  then have "s = rev r @ p"
    by (metis rev_append rev_rev_ident)
  then show "\<exists>r. s = r @ p" ..
next
  assume "\<exists>r. s = r @ p"
  then show "endswith s p"
    by (auto simp: endswith_def startswith_append)
qed

lemma contains_single: "str_contains [x] s \<longleftrightarrow> x \<in> set s"
  by (induction s) auto

lemma replace_single: "replace_scan [x] [] s = filter (\<lambda>c. c \<noteq> x) s"
  by (induction s) auto

lemma replace_char: "replace_scan [x] [y] s = map (\<lambda>c. if c = x then y else c) s"
  by (induction s) auto

lemma normalize_map:
  "str_replace name (lit '' '') (lit ''_'') = map (\<lambda>c. if c = 32 then 95 else c) name"
  by (simp add: str_replace_def lit_def replace_char)

lemma replace_pair_head:
  "replace_scan [a, a] [] s = x # r \<Longrightarrow> x = a \<Longrightarrow> \<exists>t. s = a # t"
proof (induction "[a, a]" "[] :: nat list" s arbitrary: x r rule: replace_scan.induct)
  case 1
  then show ?case by simp
next
  case (2 c cs)
  then show ?case by (auto split: if_splits simp: startswith_pair)
qed

lemma replace_pair_clean: "\<not> str_contains [a, a] (replace_scan [a, a] [] s)"
proof (induction "[a, a]" "[] :: nat list" s rule: replace_scan.induct)
  case 1
  then show ?case by simp
next
  case (2 c cs)
  show ?case
  proof (cases "startswith (c # cs) [a, a]")
    case True
    with 2 show ?thesis by simp
  next
    case False
    have "\<not> startswith (c # replace_scan [a, a] [] cs) [a, a]"
    proof
      assume "startswith (c # replace_scan [a, a] [] cs) [a, a]"
      then obtain r where r: "c = a" "replace_scan [a, a] [] cs = a # r"
        by (auto simp: startswith_pair)
      from replace_pair_head [OF r(2)] obtain t where "cs = a # t" by auto
      with r(1) False show False by simp
    qed
    with 2 False show ?thesis by simp
  qed
qed

lemma no_straddle:
  assumes "a \<notin> set rest" and "s \<noteq> []" and "\<not> startswith s (a # rest)"
  shows "\<not> startswith (s @ a # rest) (a # rest)"
proof
  assume "startswith (s @ a # rest) (a # rest)"
  then obtain r where r: "s @ a # rest = (a # rest) @ r"
    by (auto simp: startswith_append)
  from assms(2) obtain x s' where s: "s = x # s'" by (cases s) auto
  with r have x: "x = a" and e: "s' @ a # rest = rest @ r" by auto
  show False
  proof (cases "length rest \<le> length s'")
    case True
    from e have "take (length rest) (s' @ a # rest) = rest" by simp
    with True have "take (length rest) s' = rest" by simp
    then have "s' = rest @ drop (length rest) s'"
      by (metis append_take_drop_id)
    with s x have "s = (a # rest) @ drop (length rest) s'" by simp
    then have "startswith s (a # rest)"
      unfolding startswith_append by blast
    with assms(3) show False by contradiction
  next
    case False
    then have l: "length s' < length rest" by simp
    have "(s' @ a # rest) ! length s' = a" by simp
    moreover from l have "(rest @ r) ! length s' = rest ! length s'"
      by (simp add: nth_append)
    ultimately have "rest ! length s' = a" using e by simp
    with l assms(1) show False by (metis nth_mem)
  qed
qed

lemma replace_strips_suffix:
  assumes "a \<notin> set rest" and "\<not> str_contains (a # rest) stem"
  shows "replace_scan (a # rest) [] (stem @ a # rest) = stem"
  using assms(2)
proof (induction stem)
  case Nil
  have "startswith (a # rest) (a # rest)" by (rule startswith_refl)
  then show ?case by simp
next
  case (Cons c cs)
  then have n: "\<not> startswith (c # cs) (a # rest)" and m: "\<not> str_contains (a # rest) cs"
    by auto
  from no_straddle [OF assms(1) _ n] have "\<not> startswith ((c # cs) @ a # rest) (a # rest)"
    by simp
  with Cons.IH [OF m] show ?case by auto
qed

lemma suffix_shape: "lit ''_resume.json'' = 95 # lit ''resume.json''" "95 \<notin> set (lit ''resume.json'')"
  by (simp_all add: lit_def)

lemma strip_empty_iff: "str_strip s = [] \<longleftrightarrow> (\<forall>c\<in>set s. isspace c)"
proof
  assume "str_strip s = []"
  then have a: "\<forall>c\<in>set (dropWhile isspace s). isspace c"
    by (simp add: str_strip_def)
  show "\<forall>c\<in>set s. isspace c"
  proof (cases "dropWhile isspace s")
    case Nil
    then show ?thesis by simp
  next
    case (Cons x xs)
    then have "\<not> isspace x" using hd_dropWhile [of isspace s] by simp
    with a Cons show ?thesis by simp
  qed
next
  assume "\<forall>c\<in>set s. isspace c"
  then have "dropWhile isspace s = []" by simp
  then show "str_strip s = []" by (simp add: str_strip_def del: dropWhile_eq_Nil_conv)
qed

lemma split_no_sep: "sep \<notin> set a \<Longrightarrow> str_split a sep = [a]"
  by (induction a) auto

lemma split_append: "sep \<notin> set a \<Longrightarrow> str_split (a @ sep # b) sep = a # str_split b sep"
  by (induction a) auto


section \<open>Facts about the renderer\<close>

lemma set_replace_scan: "set (replace_scan old [] s) \<subseteq> set s"
proof (induction old "[] :: nat list" s rule: replace_scan.induct)
  case (1 old)
  show ?case by simp
next
  case (2 old c cs)
  show ?case
  proof (cases "startswith (c # cs) old")
    case True
    have "set (drop (length old - 1) cs) \<subseteq> set cs" by (rule set_drop_subset)
    with 2(1) [OF True] True show ?thesis by auto
  next
    case False
    with 2(2) [OF False] show ?thesis by auto
  qed
qed

lemma plain_replace: "plain_text s \<Longrightarrow> old \<noteq> [] \<Longrightarrow> plain_text (str_replace s old [])"
  using set_replace_scan [of old s] by (auto simp: plain_text_def str_replace_def)

lemma bold_plain_wrap: "bold_plain (lit ''<b>'' @ t @ lit ''</b>'') = plain_text t"
proof -
  have "startswith (lit ''<b>'' @ t @ lit ''</b>'') (lit ''<b>'')"
    by (simp add: startswith_append)
  moreover have "endswith (lit ''<b>'' @ t @ lit ''</b>'') (lit ''</b>'')"
    unfolding endswith_append by (rule exI [of _ "lit ''<b>'' @ t"]) simp
  moreover have "length (lit ''<b>'' @ t @ lit ''</b>'') = 7 + length t"
    by (simp add: lit_def)
  moreover have "drop 3 (lit ''<b>'' @ t @ lit ''</b>'') = t @ lit ''</b>''"
    by (simp add: lit_def)
  ultimately show ?thesis by (simp add: bold_plain_def)
qed

lemma wrap_not_plain: "\<not> plain_text (lit ''<b>'' @ t)"
  by (simp add: plain_text_def lit_def)

lemma item_not_bold: "\<not> bold_plain (bullet # t)"
  by (simp add: bold_plain_def bullet_def lit_def)

lemma item_plain: "plain_text (bullet # lit '' '' @ t) = plain_text t"
  by (simp add: plain_text_def bullet_def lit_def)

lemma new_Paragraph_heading:
  "new_Paragraph L (lit ''<b>'' @ t @ lit ''</b>'') style =
     (if plain_text t \<or> para_parses L (lit ''<b>'' @ t @ lit ''</b>'')
      then Inr (Paragraph (lit ''<b>'' @ t @ lit ''</b>'') style) else Inl ValueError)"
  by (simp add: new_Paragraph_def bold_plain_wrap wrap_not_plain)

lemma new_Paragraph_item:
  "new_Paragraph L (bullet # lit '' '' @ t) style =
     (if plain_text t \<or> para_parses L (bullet # lit '' '' @ t)
      then Inr (Paragraph (bullet # lit '' '' @ t) style) else Inl ValueError)"
  by (simp add: new_Paragraph_def item_not_bold item_plain)

lemma new_Paragraph_title:
  "new_Paragraph L (lit ''<b>Resume</b>'') Title = Inr (Paragraph (lit ''<b>Resume</b>'') Title)"
proof -
  have "lit ''<b>Resume</b>'' = lit ''<b>'' @ lit ''Resume'' @ lit ''</b>''"
    by (simp add: lit_def)
  moreover have "plain_text (lit ''Resume'')"
    by (simp add: plain_text_def lit_def)
  ultimately show ?thesis by (simp add: new_Paragraph_heading)
qed

lemma new_Paragraph_raises: "new_Paragraph L t style = Inl e \<Longrightarrow> e = ValueError"
  by (simp add: new_Paragraph_def split: if_splits)

lemma append_line_heading:
  assumes "str_contains (lit ''**'') line"
  shows "append_line L els line =
           (if plain_text (str_replace line (lit ''**'') [])
               \<or> para_parses L (lit ''<b>'' @ str_replace line (lit ''**'') [] @ lit ''</b>'')
            then Inr (els @ [Spacer 1 2,
                   Paragraph (lit ''<b>'' @ str_replace line (lit ''**'') [] @ lit ''</b>'')
                     Heading2])
            else Inl ValueError)"
  using assms by (simp add: append_line_def new_Paragraph_heading)

lemma append_line_item:
  assumes "\<not> str_contains (lit ''**'') line" and "str_contains (lit ''-'') line"
  shows "append_line L els line =
           (if plain_text (str_replace line (lit ''-'') [])
               \<or> para_parses L (bullet # lit '' '' @ str_replace line (lit ''-'') [])
            then Inr (els @ [Paragraph (bullet # lit '' '' @ str_replace line (lit ''-'') [])
                               Normal])
            else Inl ValueError)"
  using assms by (simp add: append_line_def new_Paragraph_item)

lemma append_line_frame:
  "append_line L els line =
     (case append_line L [] line of Inl e \<Rightarrow> Inl e | Inr fl \<Rightarrow> Inr (els @ fl))"
  by (simp add: append_line_def split: sum.splits)

lemma append_line_raises: "append_line L els line = Inl e \<Longrightarrow> e = ValueError"
  by (auto simp: append_line_def split: if_splits sum.splits dest: new_Paragraph_raises)

lemma append_lines_built:
  "append_lines L els ls = Inr r \<Longrightarrow>
   r = els @ concat (map (\<lambda>l. projr (append_line L [] l)) ls)"
proof (induction ls arbitrary: els)
  case Nil
  then show ?case by simp
next
  case (Cons l ls)
  from Cons.prems obtain els' where
    a: "append_line L els l = Inr els'" and b: "append_lines L els' ls = Inr r"
    by (auto split: sum.splits)
  from a have "els' = els @ projr (append_line L [] l)"
    by (subst (asm) append_line_frame) (auto split: sum.splits)
  with Cons.IH [OF b] show ?case by simp
qed

lemma append_lines_raise:
  "l \<in> set ls \<Longrightarrow> append_line L [] l = Inl ValueError \<Longrightarrow>
   append_lines L els ls = Inl ValueError"
proof (induction ls arbitrary: els)
  case Nil
  then show ?case by simp
next
  case (Cons a ls)
  show ?case
  proof (cases "append_line L els a")
    case (Inl e)
    from append_line_raises [OF Inl] Inl show ?thesis by simp
  next
    case (Inr els')
    have "a \<noteq> l"
    proof
      assume "a = l"
      with Cons.prems(2) have "append_line L els a = Inl ValueError"
        by (subst append_line_frame) simp
      with Inr show False by simp
    qed
    with Cons.prems(1) have "l \<in> set ls" by simp
    from Cons.IH [OF this Cons.prems(2)] Inr show ?thesis by simp
  qed
qed

lemma save_to_pdf_lines:
  "str_strip text \<noteq> [] \<Longrightarrow>
   save_to_pdf L text filename =
     (case append_lines L [Paragraph (lit ''<b>Resume</b>'') Title, Spacer 1 2]
             (str_split text 10) of
        Inl e \<Rightarrow> Inl e
      | Inr elements \<Rightarrow> Inr \<lparr>pdf_filename = filename, pdf_elements = elements\<rparr>)"
  by (simp add: save_to_pdf_def new_Paragraph_title)

lemma save_to_pdf_built:
  assumes "str_strip text \<noteq> []" and "save_to_pdf L text filename = Inr doc"
  shows "pdf_elements doc =
           [Paragraph (lit ''<b>Resume</b>'') Title, Spacer 1 2]
             @ concat (map (\<lambda>l. projr (append_line L [] l)) (str_split text 10))"
    and "pdf_filename doc = filename"
    and "\<forall>l\<in>set (str_split text 10). \<exists>fl. append_line L [] l = Inr fl"
proof -
  from assms obtain els where
    a: "append_lines L [Paragraph (lit ''<b>Resume</b>'') Title, Spacer 1 2] (str_split text 10)
          = Inr els"
    and d: "doc = \<lparr>pdf_filename = filename, pdf_elements = els\<rparr>"
    by (auto simp: save_to_pdf_lines split: sum.splits)
  from append_lines_built [OF a] d
  show "pdf_elements doc =
           [Paragraph (lit ''<b>Resume</b>'') Title, Spacer 1 2]
             @ concat (map (\<lambda>l. projr (append_line L [] l)) (str_split text 10))"
    by simp
  from d show "pdf_filename doc = filename" by simp
  show "\<forall>l\<in>set (str_split text 10). \<exists>fl. append_line L [] l = Inr fl"
  proof
    fix l assume l: "l \<in> set (str_split text 10)"
    show "\<exists>fl. append_line L [] l = Inr fl"
    proof (cases "append_line L [] l")
      case (Inl e)
      with append_line_raises [OF Inl] have "append_line L [] l = Inl ValueError" by simp
      from append_lines_raise [OF l this] a show ?thesis by simp
    next
      case (Inr fl)
      then show ?thesis by blast
    qed
  qed
qed

lemma save_to_pdf_raise:
  assumes "str_strip text \<noteq> []" and "l \<in> set (str_split text 10)"
    and "append_line L [] l = Inl ValueError"
  shows "save_to_pdf L text filename = Inl ValueError"
  using assms(1) append_lines_raise [OF assms(2,3)] by (simp add: save_to_pdf_lines)

lemma placeholder_split:
  "str_split (lit ''No content available.'') 10 = [lit ''No content available.'']"
  by (simp add: lit_def)

lemma placeholder_line:
  "append_line L els (lit ''No content available.'') =
     Inr (els @ [Paragraph (lit ''No content available.'') Normal])"
  by (simp add: append_line_def new_Paragraph_def plain_text_def lit_def)


section \<open>Facts about paths and the file system\<close>

lemma join_SAVE_DIR:
  "os_path_join SAVE_DIR b = (if startswith b (lit ''/'') then b else SAVE_DIR @ lit ''/'' @ b)"
  by (simp add: os_path_join_def SAVE_DIR_def endswith_def lit_def)

lemma join_absolute: "startswith filename (lit ''/'') \<Longrightarrow> os_path_join SAVE_DIR filename = filename"
  by (simp add: os_path_join_def)

lemma save_dir_regular:
  "SAVE_DIR \<noteq> []" "SAVE_DIR \<noteq> lit ''.''" "SAVE_DIR \<noteq> lit ''..''" "47 \<notin> set SAVE_DIR"
  "0 \<notin> set SAVE_DIR" "\<not> startswith SAVE_DIR (lit ''/'')"
  by (simp_all add: SAVE_DIR_def lit_def)

lemma entry_regular:
  "stem @ lit ''_resume.json'' \<noteq> []" "stem @ lit ''_resume.json'' \<noteq> lit ''.''"
  "stem @ lit ''_resume.json'' \<noteq> lit ''..''"
proof -
  have l: "length (stem @ lit ''_resume.json'') \<ge> 12" by (simp add: lit_def)
  show "stem @ lit ''_resume.json'' \<noteq> []" by (simp add: lit_def)
  show "stem @ lit ''_resume.json'' \<noteq> lit ''.''"
  proof
    assume "stem @ lit ''_resume.json'' = lit ''.''"
    then have "length (stem @ lit ''_resume.json'') = length (lit ''.'')" by simp
    with l show False by (simp add: lit_def)
  qed
  show "stem @ lit ''_resume.json'' \<noteq> lit ''..''"
  proof
    assume "stem @ lit ''_resume.json'' = lit ''..''"
    then have "length (stem @ lit ''_resume.json'') = length (lit ''..'')" by simp
    with l show False by (simp add: lit_def)
  qed
qed

lemma node_at_update:
  "p \<noteq> [] \<Longrightarrow>
   node_at (d\<lparr>nodes := AList.update p n (nodes d)\<rparr>) q = (if q = p then Some n else node_at d q)"
  by (simp add: node_at_def update_conv')

lemma walk_update:
  assumes "walk d cur cs = Inr q" and "node_at d p \<noteq> Some Dir"
  shows "walk (d\<lparr>nodes := AList.update p (File b) (nodes d)\<rparr>) cur cs = Inr q"
  using assms(1)
proof (induction cs arbitrary: cur)
  case Nil
  then show ?case by simp
next
  case (Cons c cs)
  from assms(2) have p: "p \<noteq> []" by (auto simp: node_at_def)
  from Cons.prems have dir: "node_at d cur = Some Dir"
    by (auto split: option.splits node.splits)
  with assms(2) have "cur \<noteq> p" by auto
  with dir p have dir': "node_at (d\<lparr>nodes := AList.update p (File b) (nodes d)\<rparr>) cur = Some Dir"
    by (simp add: node_at_update)
  from Cons.prems dir Cons.IH show ?case
    by (auto simp: dir' split: if_splits)
qed

lemma resolve_update:
  assumes "resolve d path = Inr q" and "node_at d p \<noteq> Some Dir"
  shows "resolve (d\<lparr>nodes := AList.update p (File b) (nodes d)\<rparr>) path = Inr q"
  using assms walk_update [of d _ _ q p b]
  by (auto simp: resolve_def split: if_splits)

lemma resolve_SAVE_DIR:
  "resolve d SAVE_DIR =
     (case node_at d (cwd d) of
        None \<Rightarrow> Inl FileNotFoundError
      | Some (File b) \<Rightarrow> Inl NotADirectoryError
      | Some Dir \<Rightarrow> Inr (cwd d @ [SAVE_DIR]))"
  using save_dir_regular
  by (simp add: resolve_def split_no_sep split: option.splits node.splits)

lemma walk_two:
  assumes "a \<noteq> []" "a \<noteq> lit ''.''" "a \<noteq> lit ''..''"
    and "e \<noteq> []" "e \<noteq> lit ''.''" "e \<noteq> lit ''..''"
    and "walk d c [a, e] = Inr p"
  shows "p = c @ [a, e]"
  using assms by (simp split: option.splits node.splits)

lemma resolve_dotdot:
  assumes "node_at d (cwd d) = Some Dir" and "node_at d (cwd d @ [SAVE_DIR]) = Some Dir"
    and "47 \<notin> set x" and "0 \<notin> set x" and "x \<noteq> []" and "x \<noteq> lit ''.''" and "x \<noteq> lit ''..''"
  shows "resolve d (os_path_join SAVE_DIR (lit ''../'' @ x)) = Inr (cwd d @ [x])"
proof -
  have j: "os_path_join SAVE_DIR (lit ''../'' @ x) = SAVE_DIR @ 47 # lit ''..'' @ 47 # x"
    by (simp add: os_path_join_def SAVE_DIR_def endswith_def lit_def)
  have "47 \<notin> set SAVE_DIR" "47 \<notin> set (lit ''..'')"
    by (simp_all add: SAVE_DIR_def lit_def)
  then have s: "str_split (SAVE_DIR @ 47 # lit ''..'' @ 47 # x) 47 = [SAVE_DIR, lit ''..'', x]"
    using assms(3) by (simp add: split_append split_no_sep)
  have z: "0 \<notin> set (SAVE_DIR @ 47 # lit ''..'' @ 47 # x)"
    using assms(4) by (simp add: SAVE_DIR_def lit_def)
  have a: "\<not> startswith (SAVE_DIR @ 47 # lit ''..'' @ 47 # x) (lit ''/'')"
    by (simp add: SAVE_DIR_def lit_def)
  have ne: "SAVE_DIR \<noteq> []" "SAVE_DIR \<noteq> lit ''.''" "SAVE_DIR \<noteq> lit ''..''"
           "lit ''..'' \<noteq> []" "lit ''..'' \<noteq> lit ''.''"
    by (simp_all add: SAVE_DIR_def lit_def)
  have w: "walk d (cwd d) [SAVE_DIR, lit ''..'', x] = Inr (cwd d @ [x])"
    using assms(1,2,5,6,7) ne by simp
  from z a show ?thesis
    by (simp add: j resolve_def s w del: set_append walk.simps)
qed

lemma open_w_Inr:
  assumes "open_w d path = Inr (p, d1)"
  shows "resolve d path = Inr p" and "node_at d p \<noteq> Some Dir" and "\<not> deny_write d p"
    and "d1 = d\<lparr>nodes := AList.update p (File []) (nodes d)\<rparr>"
  using assms
  by (auto simp: open_w_def split: sum.splits option.splits node.splits if_splits)

lemma put_file_after_open:
  "put_file (d\<lparr>nodes := AList.update p (File []) (nodes d)\<rparr>) p b =
     d\<lparr>nodes := AList.update p (File (accepts d p b)) (nodes d)\<rparr>"
  by (simp add: put_file_def)

lemma written_file:
  assumes "resolve d path = Inr p" and "node_at d p \<noteq> Some Dir"
  shows "resolve (d\<lparr>nodes := AList.update p (File c) (nodes d)\<rparr>) path = Inr p"
    and "node_at (d\<lparr>nodes := AList.update p (File c) (nodes d)\<rparr>) p = Some (File c)"
proof -
  show "resolve (d\<lparr>nodes := AList.update p (File c) (nodes d)\<rparr>) path = Inr p"
    using assms by (rule resolve_update)
  from assms(2) have "p \<noteq> []" by (auto simp: node_at_def)
  then show "node_at (d\<lparr>nodes := AList.update p (File c) (nodes d)\<rparr>) p = Some (File c)"
    by (simp add: node_at_update)
qed

lemma listdir_iff:
  "os_listdir d path = Inr fs \<longleftrightarrow>
     (\<exists>sl. resolve d path = Inr sl \<and> node_at d sl = Some Dir \<and>
           fs = map last (filter (\<lambda>q. q \<noteq> [] \<and> butlast q = sl) (remdups (map fst (nodes d)))))"
  by (auto simp: os_listdir_def split: sum.splits option.splits node.splits)


section \<open>Facts about the document store and the download route\<close>

lemma resume_filename_simple:
  "\<not> startswith name (lit ''/'') \<Longrightarrow> resume_filename name = spec_store_path name"
proof -
  assume a: "\<not> startswith name (lit ''/'')"
  have "\<not> startswith (map (\<lambda>c. if c = 32 then 95 else c) name @ lit ''_resume.json'') (lit ''/'')"
    using a by (cases name) (auto simp: lit_def)
  then show ?thesis
    by (simp add: resume_filename_def normalize_map join_SAVE_DIR spec_store_path_def)
qed

lemma same_key_same_file:
  "map (\<lambda>c. if c = 32 then 95 else c) n1 = map (\<lambda>c. if c = 32 then (95::nat) else c) n2 \<Longrightarrow>
   resume_filename n1 = resume_filename n2"
  by (simp add: resume_filename_def normalize_map)

lemma resolve_store_entry:
  assumes "47 \<notin> set n" and "resolve d (resume_filename n) = Inr p"
  shows "p = cwd d @ [SAVE_DIR, map (\<lambda>c. if c = 32 then 95 else c) n @ lit ''_resume.json'']"
proof -
  let ?e = "map (\<lambda>c. if c = 32 then 95 else c) n @ lit ''_resume.json''"
  from assms(1) have "\<not> startswith n (lit ''/'')"
    by (cases n) (auto simp: lit_def)
  then have f: "resume_filename n = SAVE_DIR @ 47 # ?e"
    by (simp add: resume_filename_simple spec_store_path_def lit_simps)
  from assms(1) have "47 \<notin> set ?e" by (auto simp: lit_def)
  then have s: "str_split (SAVE_DIR @ 47 # ?e) 47 = [SAVE_DIR, ?e]"
    using save_dir_regular(4) by (simp add: split_append split_no_sep)
  have a: "\<not> startswith (SAVE_DIR @ 47 # ?e) (lit ''/'')"
    by (simp add: SAVE_DIR_def lit_def)
  from assms(2) have "walk d (cwd d) [SAVE_DIR, ?e] = Inr p"
    unfolding f resolve_def s using a by (simp split: if_splits del: walk.simps)
  from walk_two [OF save_dir_regular(1-3) entry_regular this] show ?thesis .
qed

lemma open_w_plain_name:
  assumes "47 \<notin> set n" and "0 \<notin> set n"
    and "node_at d (cwd d) = Some Dir" and "node_at d (cwd d @ [SAVE_DIR]) = Some Dir"
    and "node_at d (cwd d @ [SAVE_DIR, map (\<lambda>c. if c = 32 then 95 else c) n @ lit ''_resume.json''])
           \<noteq> Some Dir"
    and "\<not> deny_write d (cwd d @ [SAVE_DIR, map (\<lambda>c. if c = 32 then 95 else c) n @ lit ''_resume.json''])"
  shows "\<exists>d1. open_w d (resume_filename n) =
           Inr (cwd d @ [SAVE_DIR, map (\<lambda>c. if c = 32 then 95 else c) n @ lit ''_resume.json''], d1)"
proof -
  let ?e = "map (\<lambda>c. if c = 32 then 95 else c) n @ lit ''_resume.json''"
  from assms(1) have "\<not> startswith n (lit ''/'')"
    by (cases n) (auto simp: lit_def)
  then have f: "resume_filename n = SAVE_DIR @ 47 # ?e"
    by (simp add: resume_filename_simple spec_store_path_def lit_simps)
  from assms(1) have "47 \<notin> set ?e" by (auto simp: lit_def)
  then have s: "str_split (SAVE_DIR @ 47 # ?e) 47 = [SAVE_DIR, ?e]"
    using save_dir_regular(4) by (simp add: split_append split_no_sep)
  have a: "\<not> startswith (SAVE_DIR @ 47 # ?e) (lit ''/'')"
    by (simp add: SAVE_DIR_def lit_def)
  from assms(2) have z: "0 \<notin> set (SAVE_DIR @ 47 # ?e)"
    using save_dir_regular(5) by (auto simp: lit_def)
  have w: "walk d (cwd d) [SAVE_DIR, ?e] = Inr (cwd d @ [SAVE_DIR, ?e])"
    using assms(3,4) save_dir_regular(1-3) entry_regular [of "map (\<lambda>c. if c = 32 then 95 else c) n"]
    by simp
  from z a have r: "resolve d (resume_filename n) = Inr (cwd d @ [SAVE_DIR, ?e])"
    unfolding f by (simp add: resolve_def s w del: set_append walk.simps)
  from assms(5,6) show ?thesis
    by (auto simp: open_w_def r split: option.splits node.splits)
qed

lemma save_try_written:
  assumes "open_w (disk w) filename = Inr (p, d1)"
  shows "save_try J w filename resume_data =
           (if accepts (disk w) p (fst (json_dump J resume_data)) \<noteq> fst (json_dump J resume_data)
            then Some OSError else snd (json_dump J resume_data),
            w\<lparr>disk := (disk w)\<lparr>nodes :=
                 AList.update p (File (accepts (disk w) p (fst (json_dump J resume_data))))
                   (nodes (disk w))\<rparr>\<rparr>)"
  using assms open_w_Inr(4) [OF assms]
  by (simp add: save_try_def put_file_after_open split: prod.splits)

lemma save_try_refused:
  "open_w (disk w) filename = Inl e \<Longrightarrow> save_try J w filename resume_data = (Some e, w)"
  by (simp add: save_try_def)

lemma save_try_console: "console (snd (save_try J w filename resume_data)) = console w"
  by (simp add: save_try_def split: sum.splits prod.splits)

lemma save_try_shows:
  "console_shows (snd (save_try J w filename resume_data)) = console_shows w"
  by (simp add: save_try_def split: sum.splits prod.splits)

lemma py_print_Inr:
  "py_print w line = Inr w' \<Longrightarrow>
   console_shows w line \<and> disk w' = disk w \<and> console w' = console w @ [line] \<and>
   console_shows w' = console_shows w"
  by (auto simp: py_print_def split: if_splits)

lemma save_cases:
  "save_resume_data J w n r =
     (case fst (save_try J w (resume_filename n) r) of
        None \<Rightarrow> Inr (snd (save_try J w (resume_filename n) r))
      | Some e \<Rightarrow>
          if console_shows w (Error_saving e)
          then Inr ((snd (save_try J w (resume_filename n) r))
                      \<lparr>console := console w @ [Error_saving e]\<rparr>)
          else Inl UnicodeEncodeError)"
  using save_try_shows [of J w "resume_filename n" r]
        save_try_console [of J w "resume_filename n" r]
  by (cases "save_try J w (resume_filename n) r")
     (simp add: save_resume_data_def py_print_def split: option.splits)

lemma save_returns:
  assumes "\<And>e. console_shows w (Error_saving e)"
  shows "save_resume_data J w n r = Inr (projr (save_resume_data J w n r))"
  using assms by (simp add: save_cases split: option.splits)

lemma save_state:
  assumes "save_resume_data J w n r = Inr w'"
  shows "disk w' = disk (snd (save_try J w (resume_filename n) r))"
    and "console_shows w' = console_shows w"
  using assms save_try_shows [of J w "resume_filename n" r]
  by (auto simp: save_cases split: option.splits if_splits)

lemma save_disk:
  assumes "open_w (disk w) (resume_filename n) = Inr (p, d1)"
    and "save_resume_data J w n r = Inr w'"
  shows "\<exists>c. disk w' = (disk w)\<lparr>nodes := AList.update p (File c) (nodes (disk w))\<rparr>"
proof -
  have "disk w' = (disk w)\<lparr>nodes :=
          AList.update p (File (accepts (disk w) p (fst (json_dump J r)))) (nodes (disk w))\<rparr>"
    using save_state(1) [OF assms(2)] by (simp add: save_try_written [OF assms(1)])
  then show ?thesis ..
qed

lemma save_overwrites:
  assumes "open_w (disk w) (resume_filename name) = Inr (p, d1)"
    and "\<not> deny_read (disk w) p"
    and "save_resume_data J w name resume_data = Inr w'"
  shows "open_r (disk w') (resume_filename name) =
           Inr (accepts (disk w) p (fst (json_dump J resume_data)))"
proof -
  let ?c = "accepts (disk w) p (fst (json_dump J resume_data))"
  let ?d = "(disk w)\<lparr>nodes := AList.update p (File ?c) (nodes (disk w))\<rparr>"
  have r: "resolve ?d (resume_filename name) = Inr p" and n: "node_at ?d p = Some (File ?c)"
    using written_file [OF open_w_Inr(1,2) [OF assms(1)]] by auto
  have o: "open_r ?d (resume_filename name) = Inr ?c"
    using r n assms(2) by (simp add: open_r_def)
  have "disk w' = ?d"
    using save_state(1) [OF assms(3)] by (simp add: save_try_written [OF assms(1)])
  with o show ?thesis by simp
qed

lemma save_into_store:
  assumes L: "os_listdir (disk w) SAVE_DIR = Inr fs"
    and n: "47 \<notin> set n"
    and o: "open_w (disk w) (resume_filename n) = Inr (p, d1)"
    and s: "save_resume_data J w n r = Inr w'"
  shows "\<exists>fs'. os_listdir (disk w') SAVE_DIR = Inr fs' \<and>
           set fs' = insert (map (\<lambda>c. if c = 32 then 95 else c) n @ lit ''_resume.json'') (set fs)"
proof -
  let ?e = "map (\<lambda>c. if c = 32 then 95 else c) n @ lit ''_resume.json''"
  let ?sl = "cwd (disk w) @ [SAVE_DIR]"
  from L obtain sl where sl: "resolve (disk w) SAVE_DIR = Inr sl" "node_at (disk w) sl = Some Dir"
    and fs: "fs = map last (filter (\<lambda>q. q \<noteq> [] \<and> butlast q = sl)
                          (remdups (map fst (nodes (disk w)))))"
    unfolding listdir_iff by blast
  from sl(1) have sl_eq: "sl = ?sl"
    by (auto simp: resolve_SAVE_DIR split: option.splits node.splits)
  note op = open_w_Inr [OF o]
  from resolve_store_entry [OF n op(1)] have p: "p = ?sl @ [?e]" by simp
  from op(2) have pne: "p \<noteq> []" by (auto simp: node_at_def)
  from save_disk [OF o s] obtain c where
    d': "disk w' = (disk w)\<lparr>nodes := AList.update p (File c) (nodes (disk w))\<rparr>" ..
  have r': "resolve (disk w') SAVE_DIR = Inr sl"
    unfolding d' using sl(1) op(2) by (rule resolve_update)
  from sl(2) op(2) have "sl \<noteq> p" by auto
  with pne sl(2) have n': "node_at (disk w') sl = Some Dir"
    unfolding d' by (simp add: node_at_update)
  have k: "fst ` set (nodes (disk w')) = insert p (fst ` set (nodes (disk w)))"
    unfolding d' by (simp add: dom_update)
  let ?fs' = "map last (filter (\<lambda>q. q \<noteq> [] \<and> butlast q = sl) (remdups (map fst (nodes (disk w')))))"
  have l': "os_listdir (disk w') SAVE_DIR = Inr ?fs'"
    unfolding listdir_iff using r' n' by blast
  have pp: "p \<noteq> [] \<and> butlast p = sl" and lp: "last p = ?e"
    using p sl_eq by (simp_all add: butlast_append)
  have "set ?fs' = last ` {q \<in> fst ` set (nodes (disk w')). q \<noteq> [] \<and> butlast q = sl}"
    by auto
  also have "{q \<in> fst ` set (nodes (disk w')). q \<noteq> [] \<and> butlast q = sl} =
             insert p {q \<in> fst ` set (nodes (disk w)). q \<noteq> [] \<and> butlast q = sl}"
    unfolding k using pp by auto
  also have "last ` insert p {q \<in> fst ` set (nodes (disk w)). q \<noteq> [] \<and> butlast q = sl} =
             insert ?e (last ` {q \<in> fst ` set (nodes (disk w)). q \<noteq> [] \<and> butlast q = sl})"
    using lp by simp
  also have "last ` {q \<in> fst ` set (nodes (disk w)). q \<noteq> [] \<and> butlast q = sl} = set fs"
    unfolding fs by auto
  finally have "set ?fs' = insert ?e (set fs)" .
  with l' show ?thesis by blast
qed

lemma load_reads:
  assumes "resolve (disk w) (resume_filename name) = Inr p"
    and "node_at (disk w) p = Some (File b)"
    and "\<not> deny_read (disk w) p"
  shows "load_resume_data J w name =
           (case json_load J b of
              Inr v \<Rightarrow> (Inr v, w)
            | Inl e \<Rightarrow>
                if e = JSONDecodeError
                then (if console_shows w (Error_loading (resume_filename name))
                      then (Inr None,
                            w\<lparr>console := console w @ [Error_loading (resume_filename name)]\<rparr>)
                      else (Inl UnicodeEncodeError, w))
                else (Inl e, w))"
  using assms
  by (simp add: load_resume_data_def os_path_exists_def open_r_def py_print_def
           split: sum.splits)

lemma load_absent:
  "\<not> os_path_exists (disk w) (resume_filename name) \<Longrightarrow> load_resume_data J w name = (Inr None, w)"
  by (simp add: load_resume_data_def)

lemma load_corrupt_json:
  assumes "resolve (disk w) (resume_filename name) = Inr p"
    and "node_at (disk w) p = Some (File b)" and "\<not> deny_read (disk w) p"
    and "json_load J b = Inl JSONDecodeError"
  shows "load_resume_data J w name =
           (if console_shows w (Error_loading (resume_filename name))
            then (Inr None, w\<lparr>console := console w @ [Error_loading (resume_filename name)]\<rparr>)
            else (Inl UnicodeEncodeError, w))"
  using load_reads [OF assms(1-3), of J] assms(4) by simp

lemma display_of_stem:
  assumes "\<not> str_contains (lit ''_resume.json'') stem"
  shows "str_replace (str_replace (stem @ lit ''_resume.json'') (lit ''_resume.json'') [])
           (lit ''_'') (lit '' '') = map (\<lambda>c. if c = 95 then 32 else c) stem"
proof -
  have "replace_scan (lit ''_resume.json'') [] (stem @ lit ''_resume.json'') = stem"
    using replace_strips_suffix [OF suffix_shape(2), of stem] assms
    by (simp add: suffix_shape(1))
  moreover have "lit ''_resume.json'' \<noteq> []" by (simp add: lit_def)
  ultimately have "str_replace (stem @ lit ''_resume.json'') (lit ''_resume.json'') [] = stem"
    by (simp add: str_replace_def)
  then show ?thesis
    by (simp add: str_replace_def lit_simps replace_char) 
qed

lemma display_of_entry:
  assumes "endswith f (lit ''_resume.json'')"
    and "\<not> str_contains (lit ''_resume.json'') (take (length f - length (lit ''_resume.json'')) f)"
  shows "str_replace (str_replace f (lit ''_resume.json'') []) (lit ''_'') (lit '' '') =
           spec_display_name f"
proof -
  from assms(1) obtain r where r: "f = r @ lit ''_resume.json''"
    by (auto simp: endswith_append)
  then have t: "take (length f - length (lit ''_resume.json'')) f = r" by simp
  from assms(2) have "\<not> str_contains (lit ''_resume.json'') r" unfolding t .
  from display_of_stem [OF this] show ?thesis
    unfolding spec_display_name_def t unfolding r .
qed

lemma get_saved_resumes_spec:
  assumes "os_listdir (disk w) SAVE_DIR = Inr files"
    and "\<forall>f\<in>set files. endswith f (lit ''_resume.json'') \<longrightarrow>
           \<not> str_contains (lit ''_resume.json'') (take (length f - length (lit ''_resume.json'')) f)"
  shows "get_saved_resumes w =
           Inr (map spec_display_name (filter (\<lambda>f. endswith f (lit ''_resume.json'')) files))"
proof -
  have "map (\<lambda>file. str_replace (str_replace file (lit ''_resume.json'') []) (lit ''_'') (lit '' ''))
          (filter (\<lambda>file. endswith file (lit ''_resume.json'')) files) =
        map spec_display_name (filter (\<lambda>f. endswith f (lit ''_resume.json'')) files)"
    using assms(2) by (intro map_cong refl) (auto simp: display_of_entry)
  with assms(1) show ?thesis by (simp add: get_saved_resumes_def)
qed

lemma download_absent:
  "\<not> os_path_exists (disk w) (os_path_join SAVE_DIR filename) \<Longrightarrow>
   download_resume w filename = Inl NotFound"
  by (simp add: download_resume_def)

lemma download_serves:
  assumes "resolve (disk w) (os_path_join SAVE_DIR filename) = Inr p"
    and "node_at (disk w) p = Some (File b)" and "\<not> deny_read (disk w) p"
  shows "download_resume w filename =
           Inr (Attachment (last (str_split (os_path_join SAVE_DIR filename) 47)) b)"
  using assms by (simp add: download_resume_def os_path_exists_def send_file_def open_r_def)


section \<open>The examples evaluated\<close>

lemma fresh_world_simps:
  "disk fresh_world = fresh_disk" "console fresh_world = []" "console_shows fresh_world line"
  by (simp_all add: fresh_world_def)

lemma ascii_world_simps:
  "disk ascii_world = fresh_disk" "console ascii_world = []" "\<not> console_shows ascii_world line"
  by (simp_all add: ascii_world_def fresh_world_def)

lemmas eval_defs = save_resume_data_def py_print_def save_try_def open_w_def resolve_def put_file_def
  node_at_def resume_filename_def str_replace_def os_path_join_def SAVE_DIR_def endswith_def
  example_json_def fresh_world_def fresh_disk_def app_dir_def lit_def

lemma jane_path: "resume_filename (lit ''Jane Doe'') = lit ''saves/Jane_Doe_resume.json''"
  by (simp add: resume_filename_def str_replace_def os_path_join_def SAVE_DIR_def endswith_def lit_def)

lemma ab_path: "resume_filename (lit ''a/b'') = lit ''saves/a/b_resume.json''"
  by (simp add: resume_filename_def str_replace_def os_path_join_def SAVE_DIR_def endswith_def lit_def)

lemma x_path: "resume_filename (lit ''x'') = lit ''saves/x_resume.json''"
  by (simp add: resume_filename_def str_replace_def os_path_join_def SAVE_DIR_def endswith_def lit_def)

lemma tmp_path: "resume_filename (lit ''/tmp/c'') = lit ''/tmp/c_resume.json''"
  by (simp add: resume_filename_def str_replace_def os_path_join_def SAVE_DIR_def endswith_def lit_def)

lemma jane_resolve:
  "resolve fresh_disk (lit ''saves/Jane_Doe_resume.json'') =
     Inr (app_dir @ [lit ''saves'', lit ''Jane_Doe_resume.json''])"
  by (simp add: resolve_def fresh_disk_def app_dir_def node_at_def lit_def)

lemma ab_resolve:
  "resolve fresh_disk (lit ''saves/a/b_resume.json'') = Inl FileNotFoundError"
  by (simp add: resolve_def fresh_disk_def app_dir_def node_at_def lit_def)

lemma tmp_resolve:
  "resolve fresh_disk (lit ''/tmp/c_resume.json'') = Inr [lit ''tmp'', lit ''c_resume.json'']"
  by (simp add: resolve_def fresh_disk_def app_dir_def node_at_def lit_def)

lemma saves_resolve_fresh: "resolve fresh_disk SAVE_DIR = Inr (app_dir @ [lit ''saves''])"
  by (simp add: resolve_def fresh_disk_def app_dir_def node_at_def SAVE_DIR_def lit_def)

lemma missing_resolve:
  "resolve fresh_disk (lit ''saves/missing_resume.json'') =
     Inr (app_dir @ [lit ''saves'', lit ''missing_resume.json''])"
  by (simp add: resolve_def fresh_disk_def app_dir_def node_at_def lit_def)

lemma x_resolve:
  "resolve (disk corrupt_world) (lit ''saves/x_resume.json'') =
     Inr (app_dir @ [lit ''saves'', lit ''x_resume.json''])"
  by (simp add: resolve_def corrupt_world_def fresh_disk_def app_dir_def node_at_def lit_def)

lemma dotdot_app_join: "os_path_join SAVE_DIR (lit ''../app.py'') = lit ''saves/../app.py''"
  by (simp add: os_path_join_def SAVE_DIR_def endswith_def lit_def)

lemma dotdot_app_resolve:
  "resolve fresh_disk (lit ''saves/../app.py'') = Inr (app_dir @ [lit ''app.py''])"
  by (simp add: resolve_def fresh_disk_def app_dir_def node_at_def lit_def)

lemma fresh_listdir: "os_listdir fresh_disk SAVE_DIR = Inr []"
  by (simp add: os_listdir_def saves_resolve_fresh)
     (simp add: fresh_disk_def app_dir_def node_at_def lit_def)

lemma after_saves_Nil: "after_saves [] = fresh_world"
  by (simp add: after_saves_def)

lemma after_saves_shows: "console_shows (after_saves ns) = (\<lambda>line. True)"
proof (induction ns rule: rev_induct)
  case Nil
  show ?case by (simp add: after_saves_def fresh_world_def)
next
  case (snoc n ns)
  have "save_resume_data example_json (after_saves ns) n jane =
          Inr (projr (save_resume_data example_json (after_saves ns) n jane))"
    by (rule save_returns) (simp add: snoc)
  from save_state(2) [OF this] show ?case
    by (simp add: after_saves_def snoc [unfolded after_saves_def])
qed

lemma after_saves_snoc:
  "save_resume_data example_json (after_saves ns) n jane = Inr (after_saves (ns @ [n]))"
  using save_returns [of "after_saves ns" example_json n jane]
  by (simp add: after_saves_def after_saves_shows [unfolded after_saves_def])

text \<open>
  A name that contains \<open>_resume.json\<close> loses every occurrence of it in the list, not
  only the suffix of its file name: \<open>str.replace\<close> replaces all occurrences.
\<close>

lemma listing_drops_inner_suffix:
  "get_saved_resumes (after_saves [lit ''cv_resume.json'']) = Inr [lit ''cv''] \<and>
   spec_reconstructed (lit ''cv_resume.json'') = lit ''cv resume.json''"
proof -
  have d: "disk (after_saves [lit ''cv_resume.json'']) =
     fresh_disk\<lparr>nodes := nodes fresh_disk
       @ [(app_dir @ [lit ''saves'', lit ''cv_resume.json_resume.json''], File jane_document)]\<rparr>"
    by (simp add: after_saves_def eval_defs)
  have l: "os_listdir (disk (after_saves [lit ''cv_resume.json''])) SAVE_DIR =
             Inr [lit ''cv_resume.json_resume.json'']"
    unfolding d
    by (simp add: os_listdir_def resolve_def fresh_disk_def app_dir_def node_at_def SAVE_DIR_def
          lit_def)
  have g: "get_saved_resumes (after_saves [lit ''cv_resume.json'']) = Inr [lit ''cv'']"
    by (simp add: get_saved_resumes_def l) (simp add: str_replace_def endswith_def lit_def)
  have r: "spec_reconstructed (lit ''cv_resume.json'') = lit ''cv resume.json''"
    by (simp add: spec_reconstructed_def lit_def)
  from g r show ?thesis by blast
qed


section \<open>The claims\<close>

subsection \<open>Claim C1\<close>

text \<open>
  Claim C1, as it holds of the code. \<open>load(N)\<close> right after \<open>save(N, R)\<close> returns \<open>R\<close> whenever the
  save went through and the record is one the JSON library reads back: the store file
  of \<open>N\<close> can be opened for writing, the record is serialised without an exception,
  the medium stores all of it, the file may be read, and \<open>json.load\<close> returns \<open>R\<close>
  on what \<open>json.dump\<close> wrote. By \<open>open_w_plain_name\<close> the file can be opened for
  every name without a slash or a NUL character when the store directory exists and
  the system does not refuse the file.
\<close>

theorem C1_round_trip_when_written:
  assumes "open_w (disk w) (resume_filename N) = Inr (p, d1)"
    and "json_dump J R = (b, None)"
    and "accepts (disk w) p b = b"
    and "\<not> deny_read (disk w) p"
    and "json_load J b = Inr (Some R)"
  shows "load_after_save J w N R = Inr (Some R)"
proof -
  let ?d = "(disk w)\<lparr>nodes := AList.update p (File b) (nodes (disk w))\<rparr>"
  have saved: "save_resume_data J w N R = Inr (w\<lparr>disk := ?d\<rparr>)"
    using assms(2,3) by (simp add: save_resume_data_def save_try_written [OF assms(1)])
  have r: "resolve ?d (resume_filename N) = Inr p" and n: "node_at ?d p = Some (File b)"
    using written_file [OF open_w_Inr(1,2) [OF assms(1)]] by auto
  have "load_resume_data J (w\<lparr>disk := ?d\<rparr>) N = (Inr (Some R), w\<lparr>disk := ?d\<rparr>)"
    using load_reads [of "w\<lparr>disk := ?d\<rparr>" N p b J] r n assms(4,5) by simp
  with saved show ?thesis by (simp add: load_after_save_def)
qed

theorem C1_round_trip_witness:
  "json_dump example_json jane = (jane_document, None) \<and>
   json_load example_json jane_document = Inr (Some jane) \<and>
   load_after_save example_json fresh_world (lit ''Jane Doe'') jane = Inr (Some jane)"
proof -
  have "\<exists>d1. open_w (disk fresh_world) (resume_filename (lit ''Jane Doe'')) =
          Inr (app_dir @ [lit ''saves'', lit ''Jane_Doe_resume.json''], d1)"
    by (simp add: open_w_def jane_path jane_resolve fresh_world_def)
       (simp add: fresh_disk_def app_dir_def node_at_def lit_def)
  then obtain d1 where o: "open_w (disk fresh_world) (resume_filename (lit ''Jane Doe'')) =
          Inr (app_dir @ [lit ''saves'', lit ''Jane_Doe_resume.json''], d1)" ..
  have d: "json_dump example_json jane = (jane_document, None)"
    by (simp add: example_json_def)
  have l: "json_load example_json jane_document = Inr (Some jane)"
    by (simp add: example_json_def)
  have a: "accepts (disk fresh_world) (app_dir @ [lit ''saves'', lit ''Jane_Doe_resume.json'']) jane_document = jane_document"
    by (simp add: fresh_world_def fresh_disk_def)
  have r: "\<not> deny_read (disk fresh_world) (app_dir @ [lit ''saves'', lit ''Jane_Doe_resume.json''])"
    by (simp add: fresh_world_def fresh_disk_def)
  from C1_round_trip_when_written [OF o d a r l] d l show ?thesis by simp
qed

text \<open>
  The claim as stated, for any name, fails at the name \<open>a/b\<close> in the start state:
  the store file would lie in the directory \<open>saves/a\<close>, which does not exist, so
  \<open>open\<close> raises \<open>FileNotFoundError\<close>, the handler swallows it, and \<open>load\<close> finds
  no file and returns \<open>None\<close>, although the record round-trips through the library.
\<close>

theorem C1_round_trip_counterexample:
  "json_dump example_json jane = (jane_document, None) \<and>
   json_load example_json jane_document = Inr (Some jane) \<and>
   open_w (disk fresh_world) (resume_filename (lit ''a/b'')) = Inl FileNotFoundError \<and>
   load_after_save example_json fresh_world (lit ''a/b'') jane = Inr None"
proof -
  have d: "json_dump example_json jane = (jane_document, None)"
    by (simp add: example_json_def)
  have l: "json_load example_json jane_document = Inr (Some jane)"
    by (simp add: example_json_def)
  have o: "open_w (disk fresh_world) (resume_filename (lit ''a/b'')) = Inl FileNotFoundError"
    by (simp add: open_w_def ab_path ab_resolve fresh_world_simps)
  have s: "save_resume_data example_json fresh_world (lit ''a/b'') jane =
             Inr (fresh_world\<lparr>console := [Error_saving FileNotFoundError]\<rparr>)"
    by (simp add: save_resume_data_def save_try_refused [OF o] py_print_def fresh_world_simps)
  have e: "\<not> os_path_exists (disk (fresh_world\<lparr>console := [Error_saving FileNotFoundError]\<rparr>))
              (resume_filename (lit ''a/b''))"
    by (simp add: os_path_exists_def ab_path ab_resolve fresh_world_simps)
  from s load_absent [OF e, of example_json] have "load_after_save example_json fresh_world (lit ''a/b'') jane = Inr None"
    by (simp add: load_after_save_def)
  with d l o show ?thesis by simp
qed

subsection \<open>Claim C2\<close>

text \<open>
  Claim C2, as it holds of the code. For a display name that does not start with a slash the path
  \<open>save_resume_data\<close> opens is the store directory, a slash, the name with spaces
  replaced by underscores, and \<open>_resume.json\<close>. Names with the same normalised form
  get the same path; when the file of the later name can be opened and the later save
  returns, the file both names lead to holds what was written for the later record
  and nothing of the earlier one. \<open>Jane Doe\<close> and \<open>Jane_Doe\<close> lead to the same file.
  (When the later save returns is the matter of claim C4.)
\<close>

theorem C2_store_path:
  "(\<not> startswith name (lit ''/'') \<longrightarrow> resume_filename name = spec_store_path name)
   \<and> (map (\<lambda>c. if c = 32 then 95 else c) n1 = map (\<lambda>c. if c = 32 then 95 else c) n2 \<longrightarrow>
        resume_filename n1 = resume_filename n2)
   \<and> (map (\<lambda>c. if c = 32 then 95 else c) n1 = map (\<lambda>c. if c = 32 then 95 else c) n2
        \<and> open_w (disk w) (resume_filename n2) = Inr (p, d1) \<and> \<not> deny_read (disk w) p
        \<and> save_resume_data J w n2 r2 = Inr w' \<longrightarrow>
        open_r (disk w') (resume_filename n1) =
          Inr (accepts (disk w) p (fst (json_dump J r2))))
   \<and> resume_filename (lit ''Jane Doe'') = resume_filename (lit ''Jane_Doe'')"
proof -
  have a: "\<not> startswith name (lit ''/'') \<longrightarrow> resume_filename name = spec_store_path name"
    by (simp add: resume_filename_simple)
  have b: "resume_filename n1 = resume_filename n2"
    if "map (\<lambda>c. if c = 32 then 95 else c) n1 = map (\<lambda>c. if c = 32 then (95::nat) else c) n2"
    using that by (rule same_key_same_file)
  have c: "open_r (disk w') (resume_filename n1) =
             Inr (accepts (disk w) p (fst (json_dump J r2)))"
    if "map (\<lambda>c. if c = 32 then 95 else c) n1 = map (\<lambda>c. if c = 32 then (95::nat) else c) n2"
      and "open_w (disk w) (resume_filename n2) = Inr (p, d1)" and "\<not> deny_read (disk w) p"
      and "save_resume_data J w n2 r2 = Inr w'"
    using save_overwrites [OF that(2,3,4)] b [OF that(1)] by simp
  have d: "resume_filename (lit ''Jane Doe'') = resume_filename (lit ''Jane_Doe'')"
    by (rule same_key_same_file) (simp add: lit_def)
  from a b c d show ?thesis by blast
qed

theorem C2_store_path_witness:
  "\<not> startswith (lit ''Jane_Doe'') (lit ''/'') \<and>
   resume_filename (lit ''Jane_Doe'') = spec_store_path (lit ''Jane_Doe'') \<and>
   resume_filename (lit ''Jane Doe'') = resume_filename (lit ''Jane_Doe'') \<and>
   (\<exists>w'. save_resume_data example_json fresh_world (lit ''Jane_Doe'') jane = Inr w' \<and>
          open_r (disk w') (resume_filename (lit ''Jane Doe'')) = Inr jane_document)"
proof -
  let ?p = "app_dir @ [lit ''saves'', lit ''Jane_Doe_resume.json'']"
  have n: "\<not> startswith (lit ''Jane_Doe'') (lit ''/'')"
    by (simp add: lit_def)
  have k: "map (\<lambda>c. if c = 32 then 95 else c) (lit ''Jane Doe'') =
           map (\<lambda>c. if c = 32 then 95 else c) (lit ''Jane_Doe'')"
    by (simp add: lit_def)
  have q: "resume_filename (lit ''Jane_Doe'') = lit ''saves/Jane_Doe_resume.json''"
    by (simp add: resume_filename_def str_replace_def os_path_join_def SAVE_DIR_def endswith_def lit_def)
  have "\<exists>d1. open_w (disk fresh_world) (resume_filename (lit ''Jane_Doe'')) = Inr (?p, d1)"
    by (simp add: open_w_def q jane_resolve fresh_world_simps)
       (simp add: fresh_disk_def app_dir_def node_at_def lit_def)
  then obtain d1 where
    o: "open_w (disk fresh_world) (resume_filename (lit ''Jane_Doe'')) = Inr (?p, d1)" ..
  have r: "\<not> deny_read (disk fresh_world) ?p"
    by (simp add: fresh_world_def fresh_disk_def)
  have a: "accepts (disk fresh_world) ?p (fst (json_dump example_json jane)) = jane_document"
    by (simp add: fresh_world_def fresh_disk_def example_json_def)
  let ?w' = "projr (save_resume_data example_json fresh_world (lit ''Jane_Doe'') jane)"
  have sv: "save_resume_data example_json fresh_world (lit ''Jane_Doe'') jane = Inr ?w'"
    by (rule save_returns) (simp add: fresh_world_simps)
  note T = C2_store_path [of "lit ''Jane_Doe''" "lit ''Jane Doe''" "lit ''Jane_Doe''" fresh_world ?p d1
      example_json jane ?w']
  from T n have p1: "resume_filename (lit ''Jane_Doe'') = spec_store_path (lit ''Jane_Doe'')"
    by blast
  from T have p2: "resume_filename (lit ''Jane Doe'') = resume_filename (lit ''Jane_Doe'')"
    by blast
  from T k o r sv
  have "open_r (disk ?w') (resume_filename (lit ''Jane Doe'')) =
          Inr (accepts (disk fresh_world) ?p (fst (json_dump example_json jane)))"
    by blast
  with sv
  have "\<exists>w'. save_resume_data example_json fresh_world (lit ''Jane_Doe'') jane = Inr w' \<and>
          open_r (disk w') (resume_filename (lit ''Jane Doe'')) =
            Inr (accepts (disk fresh_world) ?p (fst (json_dump example_json jane)))"
    by blast
  then have p3: "\<exists>w'. save_resume_data example_json fresh_world (lit ''Jane_Doe'') jane = Inr w' \<and>
          open_r (disk w') (resume_filename (lit ''Jane Doe'')) = Inr jane_document"
    unfolding a .
  from n p1 p2 p3 show ?thesis by blast
qed

text \<open>
  The claim as stated, for every display name, fails at the name \<open>/tmp/c\<close>: the
  second argument of \<open>os.path.join\<close> starts with a slash, the store directory is
  dropped, and the record is written to \<open>/tmp/c_resume.json\<close>; the store directory
  stays empty.
\<close>

theorem C2_store_path_counterexample:
  "resume_filename (lit ''/tmp/c'') = lit ''/tmp/c_resume.json'' \<and>
   spec_store_path (lit ''/tmp/c'') = lit ''saves//tmp/c_resume.json'' \<and>
   node_at (disk (projr (save_resume_data example_json fresh_world (lit ''/tmp/c'') jane)))
     [lit ''tmp'', lit ''c_resume.json''] = Some (File jane_document) \<and>
   os_listdir (disk (projr (save_resume_data example_json fresh_world (lit ''/tmp/c'') jane)))
     SAVE_DIR = Inr []"
proof -
  let ?p = "[lit ''tmp'', lit ''c_resume.json'']"
  have s: "spec_store_path (lit ''/tmp/c'') = lit ''saves//tmp/c_resume.json''"
    by (simp add: spec_store_path_def SAVE_DIR_def lit_def)
  have "\<exists>d1. open_w (disk fresh_world) (resume_filename (lit ''/tmp/c'')) = Inr (?p, d1)"
    by (simp add: open_w_def tmp_path tmp_resolve fresh_world_simps)
       (simp add: fresh_disk_def app_dir_def node_at_def lit_def)
  then obtain d1 where o: "open_w (disk fresh_world) (resume_filename (lit ''/tmp/c'')) = Inr (?p, d1)" ..
  let ?d = "fresh_disk\<lparr>nodes := AList.update ?p (File jane_document) (nodes fresh_disk)\<rparr>"
  have sv: "save_resume_data example_json fresh_world (lit ''/tmp/c'') jane =
              Inr (fresh_world\<lparr>disk := ?d\<rparr>)"
    by (simp add: save_resume_data_def save_try_written [OF o] fresh_world_simps)
       (simp add: example_json_def fresh_disk_def)
  have n: "node_at ?d ?p = Some (File jane_document)"
    by (simp add: node_at_update lit_def)
  have l: "os_listdir ?d SAVE_DIR = Inr []"
    by (simp add: os_listdir_def resolve_def fresh_disk_def app_dir_def node_at_def SAVE_DIR_def lit_def)
  from tmp_path s sv n l show ?thesis by simp
qed

subsection \<open>Claim C3\<close>

text \<open>
  Claim C3, where the code departs from it. When the store file exists and can be
  read, and \<open>json.load\<close> raises an exception other than \<open>json.JSONDecodeError\<close> on
  its content, \<open>load_resume_data\<close> raises that exception: its handler names
  \<open>json.JSONDecodeError\<close> only. Content that is not text in the file's encoding is
  such content (\<open>UnicodeDecodeError\<close>). A missing file (\<open>load_absent\<close>) gives the
  absent result, as claimed, and so does content that is text but not JSON when the
  console can show the line its handler prints (\<open>load_corrupt_json\<close>).
\<close>

theorem C3_load_raises_what_is_not_caught:
  assumes "resolve (disk w) (resume_filename name) = Inr p"
    and "node_at (disk w) p = Some (File b)"
    and "\<not> deny_read (disk w) p"
    and "json_load J b = Inl e" and "e \<noteq> JSONDecodeError"
  shows "load_resume_data J w name = (Inl e, w)"
  using load_reads [OF assms(1-3), of J] assms(4,5) by simp

theorem C3_undecodable_bytes_raise:
  "open_r (disk corrupt_world) (resume_filename (lit ''x'')) = Inr [129] \<and>
   json_load example_json [129] = Inl UnicodeDecodeError \<and>
   fst (load_resume_data example_json corrupt_world (lit ''x'')) = Inl UnicodeDecodeError"
proof -
  have r: "resolve (disk corrupt_world) (resume_filename (lit ''x'')) =
             Inr (app_dir @ [lit ''saves'', lit ''x_resume.json''])"
    by (simp add: x_path)
       (simp add: resolve_def corrupt_world_def fresh_disk_def app_dir_def node_at_def lit_def)
  have n: "node_at (disk corrupt_world) (app_dir @ [lit ''saves'', lit ''x_resume.json'']) =
             Some (File [129])"
    by (simp add: corrupt_world_def fresh_disk_def app_dir_def node_at_def lit_def)
  have d: "\<not> deny_read (disk corrupt_world) (app_dir @ [lit ''saves'', lit ''x_resume.json''])"
    by (simp add: corrupt_world_def fresh_disk_def)
  have j: "json_load example_json [129] = Inl UnicodeDecodeError"
    by (simp add: example_json_def jane_document_def lit_def)
  have o: "open_r (disk corrupt_world) (resume_filename (lit ''x'')) = Inr [129]"
    using r n d by (simp add: open_r_def)
  from C3_load_raises_what_is_not_caught [OF r n d j] o j show ?thesis by simp
qed

subsection \<open>Claim C4\<close>

text \<open>
  Claim C4, where the code departs from it. When no exception leaves the \<open>try\<close>
  block, or the console can show the line of the handler, \<open>save_resume_data\<close>
  returns normally: whatever the \<open>try\<close> block leaves on the disk stays, and the only
  trace of an exception is one line on the console. When an exception leaves the
  \<open>try\<close> block and the console cannot show the line, the \<open>print\<close> of the handler
  raises \<open>UnicodeEncodeError\<close> and \<open>save_resume_data\<close> raises it to its caller. The
  name \<open>a/b\<close> in the start state is such a save: \<open>open\<close> raises
  \<open>FileNotFoundError\<close>, and on a console in ASCII the handler raises.
\<close>

theorem C4_save_raises_when_the_line_is_not_shown:
  "((\<forall>e. fst (save_try J w (resume_filename name) resume_data) = Some e \<longrightarrow>
          console_shows w (Error_saving e)) \<longrightarrow>
      (\<exists>w'. save_resume_data J w name resume_data = Inr w' \<and>
             disk w' = disk (snd (save_try J w (resume_filename name) resume_data)) \<and>
             console w' =
               console w @ (case fst (save_try J w (resume_filename name) resume_data) of
                              None \<Rightarrow> [] | Some e \<Rightarrow> [Error_saving e])))
   \<and> (fst (save_try J w (resume_filename name) resume_data) = Some e \<and>
        \<not> console_shows w (Error_saving e) \<longrightarrow>
        save_resume_data J w name resume_data = Inl UnicodeEncodeError)"
  using save_try_console [of J w "resume_filename name" resume_data]
  by (simp add: save_cases split: option.splits)

theorem C4_save_raises_witness:
  "fst (save_try example_json ascii_world (resume_filename (lit ''a/b'')) jane) =
     Some FileNotFoundError \<and>
   \<not> console_shows ascii_world (Error_saving FileNotFoundError) \<and>
   save_resume_data example_json ascii_world (lit ''a/b'') jane = Inl UnicodeEncodeError \<and>
   console_shows fresh_world (Error_saving FileNotFoundError) \<and>
   (\<exists>w'. save_resume_data example_json fresh_world (lit ''a/b'') jane = Inr w' \<and>
          console w' = [Error_saving FileNotFoundError])"
proof -
  have o: "open_w fresh_disk (resume_filename (lit ''a/b'')) = Inl FileNotFoundError"
    by (simp add: open_w_def ab_path ab_resolve)
  have a: "save_try example_json ascii_world (resume_filename (lit ''a/b'')) jane =
             (Some FileNotFoundError, ascii_world)"
    by (rule save_try_refused) (simp add: ascii_world_simps o)
  have f: "save_try example_json fresh_world (resume_filename (lit ''a/b'')) jane =
             (Some FileNotFoundError, fresh_world)"
    by (rule save_try_refused) (simp add: fresh_world_simps o)
  have na: "\<not> console_shows ascii_world (Error_saving FileNotFoundError)"
    by (simp add: ascii_world_simps)
  have sf: "console_shows fresh_world (Error_saving FileNotFoundError)"
    by (simp add: fresh_world_simps)
  from C4_save_raises_when_the_line_is_not_shown
         [of example_json ascii_world "lit ''a/b''" jane FileNotFoundError] a na
  have p1: "save_resume_data example_json ascii_world (lit ''a/b'') jane = Inl UnicodeEncodeError"
    by simp
  from C4_save_raises_when_the_line_is_not_shown
         [of example_json fresh_world "lit ''a/b''" jane] f sf
  have p2: "\<exists>w'. save_resume_data example_json fresh_world (lit ''a/b'') jane = Inr w' \<and>
          console w' = [Error_saving FileNotFoundError]"
    by (auto simp: fresh_world_simps)
  from a na p1 sf p2 show ?thesis by simp
qed

subsection \<open>Claim C5\<close>

text \<open>
  Claim C5. When the text handed to \<open>save_to_pdf\<close> is empty or consists of whitespace
  only, the document is the fixed title and spacer followed by one plain paragraph with
  the exact text \<open>No content available.\<close>; its body is not empty.
\<close>

theorem C5_blank_text_gives_placeholder:
  assumes "text = [] \<or> (\<forall>c\<in>set text. isspace c)"
  shows "save_to_pdf L text filename =
           Inr \<lparr>pdf_filename = filename,
                pdf_elements =
                  [Paragraph (lit ''<b>Resume</b>'') Title, Spacer 1 2,
                   Paragraph (lit ''No content available.'') Normal]\<rparr>"
proof -
  from assms have "str_strip text = []"
    by (auto simp: strip_empty_iff)
  then show ?thesis
    by (simp add: save_to_pdf_def new_Paragraph_title placeholder_split placeholder_line)
qed

theorem C5_blank_text_witness:
  "list_all isspace [32, 9, 10, 8195] \<and>
   save_to_pdf example_reportlab [32, 9, 10, 8195] (lit ''resume.pdf'') =
     Inr \<lparr>pdf_filename = lit ''resume.pdf'',
          pdf_elements =
            [Paragraph (lit ''<b>Resume</b>'') Title, Spacer 1 2,
             Paragraph (lit ''No content available.'') Normal]\<rparr>"
  using C5_blank_text_gives_placeholder
          [of "[32, 9, 10, 8195]" example_reportlab "lit ''resume.pdf''"]
  by (simp add: isspace_def)

subsection \<open>Claim C6\<close>

text \<open>
  Claim C6, where the code departs from it. A line that contains \<open>**\<close> anywhere takes
  the heading branch, whether or not it also contains a hyphen, and the text of its
  paragraph is the line with the \<open>**\<close> markers removed, between \<open><b>\<close> and
  \<open></b>\<close>; no \<open>**\<close> is left in it. When reportlab accepts that text, as it does
  for every line without \<open><\<close> and \<open>&\<close>, the line appends the fixed spacer and the
  \<open>Heading2\<close> paragraph, and in a document that is built these two flowables stand
  between what the lines before and the lines after contribute. When reportlab does
  not accept it, constructing the paragraph raises \<open>ValueError\<close>: the line appends
  nothing, and \<open>save_to_pdf\<close> raises for every text with such a line. The line
  \<open>**a</b>b**\<close> is one.
\<close>

theorem C6_heading_rule:
  assumes "str_contains (lit ''**'') line"
  shows "(plain_text (str_replace line (lit ''**'') [])
            \<or> para_parses L (lit ''<b>'' @ str_replace line (lit ''**'') [] @ lit ''</b>'') \<longrightarrow>
          append_line L elements line =
            Inr (elements @ [Spacer 1 2,
                   Paragraph (lit ''<b>'' @ str_replace line (lit ''**'') [] @ lit ''</b>'')
                     Heading2]))
         \<and> (plain_text line \<longrightarrow> plain_text (str_replace line (lit ''**'') []))
         \<and> \<not> str_contains (lit ''**'') (str_replace line (lit ''**'') [])
         \<and> (str_strip text \<noteq> [] \<and> str_split text 10 = before @ line # after
              \<and> save_to_pdf L text filename = Inr doc \<longrightarrow>
              pdf_elements doc =
                ([Paragraph (lit ''<b>Resume</b>'') Title, Spacer 1 2]
                   @ concat (map (\<lambda>l. projr (append_line L [] l)) before))
                @ [Spacer 1 2,
                   Paragraph (lit ''<b>'' @ str_replace line (lit ''**'') [] @ lit ''</b>'')
                     Heading2]
                @ concat (map (\<lambda>l. projr (append_line L [] l)) after))
         \<and> (\<not> plain_text (str_replace line (lit ''**'') [])
              \<and> \<not> para_parses L (lit ''<b>'' @ str_replace line (lit ''**'') [] @ lit ''</b>'') \<longrightarrow>
              append_line L elements line = Inl ValueError
              \<and> (str_strip text \<noteq> [] \<and> line \<in> set (str_split text 10) \<longrightarrow>
                   save_to_pdf L text filename = Inl ValueError))"
proof -
  let ?hm = "lit ''<b>'' @ str_replace line (lit ''**'') [] @ lit ''</b>''"
  note rule = append_line_heading [OF assms]
  have built: "append_line L elements line = Inr (elements @ [Spacer 1 2, Paragraph ?hm Heading2])"
    if "plain_text (str_replace line (lit ''**'') []) \<or> para_parses L ?hm"
    using that by (simp add: rule)
  have plain: "plain_text (str_replace line (lit ''**'') [])" if "plain_text line"
    using that by (rule plain_replace) (simp add: lit_def)
  have clean: "\<not> str_contains (lit ''**'') (str_replace line (lit ''**'') [])"
    using replace_pair_clean [of 42 line] by (simp add: str_replace_def lit_def)
  have doc: "pdf_elements doc =
                ([Paragraph (lit ''<b>Resume</b>'') Title, Spacer 1 2]
                   @ concat (map (\<lambda>l. projr (append_line L [] l)) before))
                @ [Spacer 1 2, Paragraph ?hm Heading2]
                @ concat (map (\<lambda>l. projr (append_line L [] l)) after)"
    if t: "str_strip text \<noteq> []" and s: "str_split text 10 = before @ line # after"
      and d: "save_to_pdf L text filename = Inr doc"
  proof -
    from save_to_pdf_built(3) [OF t d] s obtain fl where "append_line L [] line = Inr fl"
      by auto
    then have "projr (append_line L [] line) = [Spacer 1 2, Paragraph ?hm Heading2]"
      by (simp add: rule split: if_splits)
    with save_to_pdf_built(1) [OF t d] s show ?thesis by simp
  qed
  have raised: "append_line L els line = Inl ValueError"
    if "\<not> plain_text (str_replace line (lit ''**'') [])" "\<not> para_parses L ?hm" for els
    using that by (simp add: rule)
  have lost: "save_to_pdf L text filename = Inl ValueError"
    if "\<not> plain_text (str_replace line (lit ''**'') [])" "\<not> para_parses L ?hm"
      "str_strip text \<noteq> []" "line \<in> set (str_split text 10)"
    using save_to_pdf_raise [OF that(3,4) raised [OF that(1,2)]] .
  from built plain clean doc raised lost show ?thesis by blast
qed

theorem C6_heading_witness:
  "str_contains (lit ''**'') (lit ''**Bold-Section**'') \<and>
   str_contains (lit ''-'') (lit ''**Bold-Section**'') \<and>
   plain_text (lit ''**Bold-Section**'') \<and>
   append_line example_reportlab [] (lit ''**Bold-Section**'') =
     Inr [Spacer 1 2, Paragraph (lit ''<b>Bold-Section</b>'') Heading2] \<and>
   save_to_pdf example_reportlab (lit ''**Bold-Section**'') (lit ''resume.pdf'') =
     Inr \<lparr>pdf_filename = lit ''resume.pdf'',
          pdf_elements =
            [Paragraph (lit ''<b>Resume</b>'') Title, Spacer 1 2,
             Spacer 1 2, Paragraph (lit ''<b>Bold-Section</b>'') Heading2]\<rparr> \<and>
   str_contains (lit ''**'') (lit ''**a</b>b**'') \<and>
   \<not> para_parses example_reportlab (lit ''<b>a</b>b</b>'') \<and>
   append_line example_reportlab [] (lit ''**a</b>b**'') = Inl ValueError \<and>
   save_to_pdf example_reportlab (lit ''**a</b>b**'') (lit ''resume.pdf'') = Inl ValueError"
proof -
  have c: "str_contains (lit ''**'') (lit ''**Bold-Section**'')"
    by (simp add: lit_def)
  have h: "str_contains (lit ''-'') (lit ''**Bold-Section**'')"
    by (simp add: lit_def)
  have p: "plain_text (lit ''**Bold-Section**'')"
    by (simp add: plain_text_def lit_def)
  have r: "str_replace (lit ''**Bold-Section**'') (lit ''**'') [] = lit ''Bold-Section''"
    by (simp add: str_replace_def lit_def)
  have w: "lit ''<b>'' @ lit ''Bold-Section'' @ lit ''</b>'' = lit ''<b>Bold-Section</b>''"
    by (simp add: lit_def)
  from C6_heading_rule [OF c, of example_reportlab "[]"] p
  have "append_line example_reportlab [] (lit ''**Bold-Section**'') =
          Inr ([] @ [Spacer 1 2,
             Paragraph (lit ''<b>'' @ str_replace (lit ''**Bold-Section**'') (lit ''**'') []
                          @ lit ''</b>'') Heading2])"
    by blast
  then have a: "append_line example_reportlab [] (lit ''**Bold-Section**'') =
          Inr [Spacer 1 2, Paragraph (lit ''<b>Bold-Section</b>'') Heading2]"
    unfolding r w by simp
  have t: "str_strip (lit ''**Bold-Section**'') \<noteq> []"
    by (simp add: str_strip_def isspace_def lit_def)
  have sp: "str_split (lit ''**Bold-Section**'') 10 = [] @ lit ''**Bold-Section**'' # []"
    by (simp add: lit_def)
  let ?doc = "projr (save_to_pdf example_reportlab (lit ''**Bold-Section**'') (lit ''resume.pdf''))"
  from C6_heading_rule [OF c, of example_reportlab
      "[Paragraph (lit ''<b>Resume</b>'') Title, Spacer 1 2]"] p
  have ah: "append_line example_reportlab [Paragraph (lit ''<b>Resume</b>'') Title, Spacer 1 2]
              (lit ''**Bold-Section**'') =
          Inr ([Paragraph (lit ''<b>Resume</b>'') Title, Spacer 1 2] @ [Spacer 1 2,
             Paragraph (lit ''<b>'' @ str_replace (lit ''**Bold-Section**'') (lit ''**'') []
                          @ lit ''</b>'') Heading2])"
    by blast
  have sv: "save_to_pdf example_reportlab (lit ''**Bold-Section**'') (lit ''resume.pdf'') = Inr ?doc"
    using t sp ah by (simp add: save_to_pdf_lines)
  from C6_heading_rule [OF c, of example_reportlab _ "lit ''**Bold-Section**''" "[]" "[]"
      "lit ''resume.pdf''" ?doc] t sp sv
  have "pdf_elements ?doc =
          ([Paragraph (lit ''<b>Resume</b>'') Title, Spacer 1 2]
             @ concat (map (\<lambda>l. projr (append_line example_reportlab [] l)) []))
          @ [Spacer 1 2,
             Paragraph (lit ''<b>'' @ str_replace (lit ''**Bold-Section**'') (lit ''**'') []
                          @ lit ''</b>'') Heading2]
          @ concat (map (\<lambda>l. projr (append_line example_reportlab [] l)) [])"
    by blast
  then have e: "pdf_elements ?doc =
          [Paragraph (lit ''<b>Resume</b>'') Title, Spacer 1 2,
           Spacer 1 2, Paragraph (lit ''<b>Bold-Section</b>'') Heading2]"
    unfolding r w by simp
  have f: "pdf_filename ?doc = lit ''resume.pdf''"
    using save_to_pdf_built(2) [OF t sv] .
  from e f have "?doc = \<lparr>pdf_filename = lit ''resume.pdf'',
          pdf_elements =
            [Paragraph (lit ''<b>Resume</b>'') Title, Spacer 1 2,
             Spacer 1 2, Paragraph (lit ''<b>Bold-Section</b>'') Heading2]\<rparr>"
    by simp
  with sv have g: "save_to_pdf example_reportlab (lit ''**Bold-Section**'') (lit ''resume.pdf'') =
     Inr \<lparr>pdf_filename = lit ''resume.pdf'',
          pdf_elements =
            [Paragraph (lit ''<b>Resume</b>'') Title, Spacer 1 2,
             Spacer 1 2, Paragraph (lit ''<b>Bold-Section</b>'') Heading2]\<rparr>"
    by simp
  have c': "str_contains (lit ''**'') (lit ''**a</b>b**'')"
    by (simp add: lit_def)
  have r': "str_replace (lit ''**a</b>b**'') (lit ''**'') [] = lit ''a</b>b''"
    by (simp add: str_replace_def lit_def)
  have w': "lit ''<b>'' @ lit ''a</b>b'' @ lit ''</b>'' = lit ''<b>a</b>b</b>''"
    by (simp add: lit_def)
  have n: "\<not> plain_text (lit ''a</b>b'')"
    by (simp add: plain_text_def lit_def)
  have q: "\<not> para_parses example_reportlab (lit ''<b>a</b>b</b>'')"
    by (simp add: example_reportlab_def)
  have s: "str_strip (lit ''**a</b>b**'') \<noteq> []"
    by (simp add: str_strip_def isspace_def lit_def)
  have l: "lit ''**a</b>b**'' \<in> set (str_split (lit ''**a</b>b**'') 10)"
    by (simp add: lit_def)
  note T = C6_heading_rule [OF c', of example_reportlab "[]" "lit ''**a</b>b**''" _ _
      "lit ''resume.pdf''", unfolded r' w']
  from T n q have b: "append_line example_reportlab [] (lit ''**a</b>b**'') = Inl ValueError"
    by blast
  from T n q s l
  have d: "save_to_pdf example_reportlab (lit ''**a</b>b**'') (lit ''resume.pdf'') = Inl ValueError"
    by blast
  from c h p a g c' q b d show ?thesis by simp
qed

subsection \<open>Claim C7\<close>

text \<open>
  Claim C7, where the code departs from it. A line without \<open>**\<close> that contains a
  hyphen takes the bullet branch, and the text of its paragraph is the bullet glyph, a
  space and the line with every hyphen removed. When reportlab accepts that text, as
  it does for every line without \<open><\<close> and \<open>&\<close>, the line appends one \<open>Normal\<close>
  paragraph with it, and in a document that is built this paragraph stands between
  what the lines before and the lines after contribute. When reportlab does not accept
  it, constructing the paragraph raises \<open>ValueError\<close>: the line appends nothing, and
  \<open>save_to_pdf\<close> raises for every text with such a line. The line
  \<open>- <i>unclosed\<close> is one.
\<close>

theorem C7_bullet_rule:
  assumes "\<not> str_contains (lit ''**'') line" and "str_contains (lit ''-'') line"
  shows "(plain_text (str_replace line (lit ''-'') [])
            \<or> para_parses L (bullet # lit '' '' @ str_replace line (lit ''-'') []) \<longrightarrow>
          append_line L elements line =
            Inr (elements @ [Paragraph (bullet # lit '' '' @ str_replace line (lit ''-'') [])
                               Normal]))
         \<and> (plain_text line \<longrightarrow> plain_text (str_replace line (lit ''-'') []))
         \<and> str_replace line (lit ''-'') [] = filter (\<lambda>c. c \<noteq> 45) line
         \<and> \<not> str_contains (lit ''-'') (str_replace line (lit ''-'') [])
         \<and> (str_strip text \<noteq> [] \<and> str_split text 10 = before @ line # after
              \<and> save_to_pdf L text filename = Inr doc \<longrightarrow>
              pdf_elements doc =
                ([Paragraph (lit ''<b>Resume</b>'') Title, Spacer 1 2]
                   @ concat (map (\<lambda>l. projr (append_line L [] l)) before))
                @ [Paragraph (bullet # lit '' '' @ str_replace line (lit ''-'') []) Normal]
                @ concat (map (\<lambda>l. projr (append_line L [] l)) after))
         \<and> (\<not> plain_text (str_replace line (lit ''-'') [])
              \<and> \<not> para_parses L (bullet # lit '' '' @ str_replace line (lit ''-'') []) \<longrightarrow>
              append_line L elements line = Inl ValueError
              \<and> (str_strip text \<noteq> [] \<and> line \<in> set (str_split text 10) \<longrightarrow>
                   save_to_pdf L text filename = Inl ValueError))"
proof -
  let ?bm = "bullet # lit '' '' @ str_replace line (lit ''-'') []"
  note rule = append_line_item [OF assms]
  have built: "append_line L elements line = Inr (elements @ [Paragraph ?bm Normal])"
    if "plain_text (str_replace line (lit ''-'') []) \<or> para_parses L ?bm"
    using that by (simp add: rule)
  have plain: "plain_text (str_replace line (lit ''-'') [])" if "plain_text line"
    using that by (rule plain_replace) (simp add: lit_def)
  have removed: "str_replace line (lit ''-'') [] = filter (\<lambda>c. c \<noteq> 45) line"
    by (simp add: str_replace_def lit_def replace_single)
  have clean: "\<not> str_contains (lit ''-'') (str_replace line (lit ''-'') [])"
    unfolding removed by (simp add: lit_def contains_single)
  have doc: "pdf_elements doc =
                ([Paragraph (lit ''<b>Resume</b>'') Title, Spacer 1 2]
                   @ concat (map (\<lambda>l. projr (append_line L [] l)) before))
                @ [Paragraph ?bm Normal]
                @ concat (map (\<lambda>l. projr (append_line L [] l)) after)"
    if t: "str_strip text \<noteq> []" and s: "str_split text 10 = before @ line # after"
      and d: "save_to_pdf L text filename = Inr doc"
  proof -
    from save_to_pdf_built(3) [OF t d] s obtain fl where "append_line L [] line = Inr fl"
      by auto
    then have "projr (append_line L [] line) = [Paragraph ?bm Normal]"
      by (simp add: rule split: if_splits)
    with save_to_pdf_built(1) [OF t d] s show ?thesis by simp
  qed
  have raised: "append_line L els line = Inl ValueError"
    if "\<not> plain_text (str_replace line (lit ''-'') [])" "\<not> para_parses L ?bm" for els
    using that by (simp add: rule)
  have lost: "save_to_pdf L text filename = Inl ValueError"
    if "\<not> plain_text (str_replace line (lit ''-'') [])" "\<not> para_parses L ?bm"
      "str_strip text \<noteq> []" "line \<in> set (str_split text 10)"
    using save_to_pdf_raise [OF that(3,4) raised [OF that(1,2)]] .
  from built plain removed clean doc raised lost show ?thesis by blast
qed

theorem C7_bullet_witness:
  "\<not> str_contains (lit ''**'') (lit ''- Skill: Python'') \<and>
   str_contains (lit ''-'') (lit ''- Skill: Python'') \<and>
   plain_text (lit ''- Skill: Python'') \<and>
   append_line example_reportlab [] (lit ''- Skill: Python'') =
     Inr [Paragraph (bullet # lit ''  Skill: Python'') Normal] \<and>
   save_to_pdf example_reportlab (lit ''- Skill: Python'') (lit ''resume.pdf'') =
     Inr \<lparr>pdf_filename = lit ''resume.pdf'',
          pdf_elements =
            [Paragraph (lit ''<b>Resume</b>'') Title, Spacer 1 2,
             Paragraph (bullet # lit ''  Skill: Python'') Normal]\<rparr> \<and>
   45 \<notin> set (bullet # lit ''  Skill: Python'') \<and>
   \<not> str_contains (lit ''**'') (lit ''- <i>unclosed'') \<and>
   str_contains (lit ''-'') (lit ''- <i>unclosed'') \<and>
   \<not> para_parses example_reportlab (bullet # lit ''  <i>unclosed'') \<and>
   append_line example_reportlab [] (lit ''- <i>unclosed'') = Inl ValueError \<and>
   save_to_pdf example_reportlab (lit ''- <i>unclosed'') (lit ''resume.pdf'') = Inl ValueError"
proof -
  have c: "\<not> str_contains (lit ''**'') (lit ''- Skill: Python'')"
    by (simp add: lit_def)
  have h: "str_contains (lit ''-'') (lit ''- Skill: Python'')"
    by (simp add: lit_def)
  have p: "plain_text (lit ''- Skill: Python'')"
    by (simp add: plain_text_def lit_def)
  have r: "bullet # lit '' '' @ str_replace (lit ''- Skill: Python'') (lit ''-'') [] =
             bullet # lit ''  Skill: Python''"
    by (simp add: str_replace_def lit_def)
  from C7_bullet_rule [OF c h, of example_reportlab "[]"] p
  have "append_line example_reportlab [] (lit ''- Skill: Python'') =
          Inr ([] @ [Paragraph (bullet # lit '' '' @ str_replace (lit ''- Skill: Python'') (lit ''-'') [])
                       Normal])"
    by blast
  then have a: "append_line example_reportlab [] (lit ''- Skill: Python'') =
          Inr [Paragraph (bullet # lit ''  Skill: Python'') Normal]"
    unfolding r by simp
  have t: "str_strip (lit ''- Skill: Python'') \<noteq> []"
    by (simp add: str_strip_def isspace_def lit_def)
  have sp: "str_split (lit ''- Skill: Python'') 10 = [] @ lit ''- Skill: Python'' # []"
    by (simp add: lit_def)
  let ?doc = "projr (save_to_pdf example_reportlab (lit ''- Skill: Python'') (lit ''resume.pdf''))"
  from C7_bullet_rule [OF c h, of example_reportlab
      "[Paragraph (lit ''<b>Resume</b>'') Title, Spacer 1 2]"] p
  have ah: "append_line example_reportlab [Paragraph (lit ''<b>Resume</b>'') Title, Spacer 1 2]
              (lit ''- Skill: Python'') =
          Inr ([Paragraph (lit ''<b>Resume</b>'') Title, Spacer 1 2]
                 @ [Paragraph (bullet # lit '' '' @ str_replace (lit ''- Skill: Python'') (lit ''-'') [])
                      Normal])"
    by blast
  have sv: "save_to_pdf example_reportlab (lit ''- Skill: Python'') (lit ''resume.pdf'') = Inr ?doc"
    using t sp ah by (simp add: save_to_pdf_lines)
  from C7_bullet_rule [OF c h, of example_reportlab _ "lit ''- Skill: Python''" "[]" "[]"
      "lit ''resume.pdf''" ?doc] t sp sv
  have "pdf_elements ?doc =
          ([Paragraph (lit ''<b>Resume</b>'') Title, Spacer 1 2]
             @ concat (map (\<lambda>l. projr (append_line example_reportlab [] l)) []))
          @ [Paragraph (bullet # lit '' '' @ str_replace (lit ''- Skill: Python'') (lit ''-'') [])
               Normal]
          @ concat (map (\<lambda>l. projr (append_line example_reportlab [] l)) [])"
    by blast
  then have e: "pdf_elements ?doc =
          [Paragraph (lit ''<b>Resume</b>'') Title, Spacer 1 2,
           Paragraph (bullet # lit ''  Skill: Python'') Normal]"
    unfolding r by simp
  have f: "pdf_filename ?doc = lit ''resume.pdf''"
    using save_to_pdf_built(2) [OF t sv] .
  from e f have "?doc = \<lparr>pdf_filename = lit ''resume.pdf'',
          pdf_elements =
            [Paragraph (lit ''<b>Resume</b>'') Title, Spacer 1 2,
             Paragraph (bullet # lit ''  Skill: Python'') Normal]\<rparr>"
    by simp
  with sv have g: "save_to_pdf example_reportlab (lit ''- Skill: Python'') (lit ''resume.pdf'') =
     Inr \<lparr>pdf_filename = lit ''resume.pdf'',
          pdf_elements =
            [Paragraph (lit ''<b>Resume</b>'') Title, Spacer 1 2,
             Paragraph (bullet # lit ''  Skill: Python'') Normal]\<rparr>"
    by simp
  have k: "45 \<notin> set (bullet # lit ''  Skill: Python'')"
    by (simp add: lit_def bullet_def)
  have c': "\<not> str_contains (lit ''**'') (lit ''- <i>unclosed'')"
    by (simp add: lit_def)
  have h': "str_contains (lit ''-'') (lit ''- <i>unclosed'')"
    by (simp add: lit_def)
  have r': "str_replace (lit ''- <i>unclosed'') (lit ''-'') [] = lit '' <i>unclosed''"
    by (simp add: str_replace_def lit_def)
  have w': "bullet # lit '' '' @ lit '' <i>unclosed'' = bullet # lit ''  <i>unclosed''"
    by (simp add: lit_def)
  have n: "\<not> plain_text (lit '' <i>unclosed'')"
    by (simp add: plain_text_def lit_def)
  have q: "\<not> para_parses example_reportlab (bullet # lit ''  <i>unclosed'')"
    by (simp add: example_reportlab_def)
  have s: "str_strip (lit ''- <i>unclosed'') \<noteq> []"
    by (simp add: str_strip_def isspace_def lit_def)
  have l: "lit ''- <i>unclosed'' \<in> set (str_split (lit ''- <i>unclosed'') 10)"
    by (simp add: lit_def)
  note T = C7_bullet_rule [OF c' h', of example_reportlab "[]" "lit ''- <i>unclosed''" _ _
      "lit ''resume.pdf''", unfolded r' w']
  from T n q have b: "append_line example_reportlab [] (lit ''- <i>unclosed'') = Inl ValueError"
    by blast
  from T n q s l
  have d: "save_to_pdf example_reportlab (lit ''- <i>unclosed'') (lit ''resume.pdf'') = Inl ValueError"
    by blast
  from c h p a g k c' h' q b d show ?thesis by simp
qed

subsection \<open>Claim C8\<close>

text \<open>
  Claim C8, as it holds of the code. When no listed file name contains \<open>_resume.json\<close> before its
  suffix, \<open>get_saved_resumes\<close> returns, for the entries of the store directory that end
  in \<open>_resume.json\<close>, the names with the suffix removed and underscores replaced by
  spaces, in the order of the directory listing. After three saves into an empty store,
  each under a name without a slash whose normalised form does not contain
  \<open>_resume.json\<close> and whose store file could be opened, it returns exactly the three
  normalised-then-reconstructed names, as a set.
\<close>

theorem C8_listing:
  "(os_listdir (disk w) SAVE_DIR = Inr files
      \<and> (\<forall>f\<in>set files. endswith f (lit ''_resume.json'') \<longrightarrow>
            \<not> str_contains (lit ''_resume.json'')
                (take (length f - length (lit ''_resume.json'')) f)) \<longrightarrow>
    get_saved_resumes w =
      Inr (map spec_display_name (filter (\<lambda>f. endswith f (lit ''_resume.json'')) files)))
   \<and> (os_listdir (disk w0) SAVE_DIR = Inr []
        \<and> 47 \<notin> set n1 \<and> 47 \<notin> set n2 \<and> 47 \<notin> set n3
        \<and> \<not> str_contains (lit ''_resume.json'') (map (\<lambda>c. if c = 32 then 95 else c) n1)
        \<and> \<not> str_contains (lit ''_resume.json'') (map (\<lambda>c. if c = 32 then 95 else c) n2)
        \<and> \<not> str_contains (lit ''_resume.json'') (map (\<lambda>c. if c = 32 then 95 else c) n3)
        \<and> open_w (disk w0) (resume_filename n1) = Inr (p1, d1)
        \<and> save_resume_data J w0 n1 r1 = Inr w1
        \<and> open_w (disk w1) (resume_filename n2) = Inr (p2, d2)
        \<and> save_resume_data J w1 n2 r2 = Inr w2
        \<and> open_w (disk w2) (resume_filename n3) = Inr (p3, d3)
        \<and> save_resume_data J w2 n3 r3 = Inr w3 \<longrightarrow>
      (\<exists>names. get_saved_resumes w3 = Inr names \<and>
         set names = {spec_reconstructed n1, spec_reconstructed n2, spec_reconstructed n3}))"
proof (intro conjI impI)
  assume "os_listdir (disk w) SAVE_DIR = Inr files
      \<and> (\<forall>f\<in>set files. endswith f (lit ''_resume.json'') \<longrightarrow>
            \<not> str_contains (lit ''_resume.json'')
                (take (length f - length (lit ''_resume.json'')) f))"
  then show "get_saved_resumes w =
      Inr (map spec_display_name (filter (\<lambda>f. endswith f (lit ''_resume.json'')) files))"
    using get_saved_resumes_spec [of w files] by blast
next
  let ?e = "\<lambda>n. map (\<lambda>c. if c = 32 then 95 else c) n @ lit ''_resume.json''"
  assume a: "os_listdir (disk w0) SAVE_DIR = Inr []
        \<and> 47 \<notin> set n1 \<and> 47 \<notin> set n2 \<and> 47 \<notin> set n3
        \<and> \<not> str_contains (lit ''_resume.json'') (map (\<lambda>c. if c = 32 then 95 else c) n1)
        \<and> \<not> str_contains (lit ''_resume.json'') (map (\<lambda>c. if c = 32 then 95 else c) n2)
        \<and> \<not> str_contains (lit ''_resume.json'') (map (\<lambda>c. if c = 32 then 95 else c) n3)
        \<and> open_w (disk w0) (resume_filename n1) = Inr (p1, d1)
        \<and> save_resume_data J w0 n1 r1 = Inr w1
        \<and> open_w (disk w1) (resume_filename n2) = Inr (p2, d2)
        \<and> save_resume_data J w1 n2 r2 = Inr w2
        \<and> open_w (disk w2) (resume_filename n3) = Inr (p3, d3)
        \<and> save_resume_data J w2 n3 r3 = Inr w3"
  from a have l0: "os_listdir (disk w0) SAVE_DIR = Inr []" by blast
  from a have s1: "47 \<notin> set n1" "open_w (disk w0) (resume_filename n1) = Inr (p1, d1)"
    "save_resume_data J w0 n1 r1 = Inr w1" by blast+
  from a have s2: "47 \<notin> set n2" "open_w (disk w1) (resume_filename n2) = Inr (p2, d2)"
    "save_resume_data J w1 n2 r2 = Inr w2" by blast+
  from a have s3: "47 \<notin> set n3" "open_w (disk w2) (resume_filename n3) = Inr (p3, d3)"
    "save_resume_data J w2 n3 r3 = Inr w3" by blast+
  from a have c: "\<not> str_contains (lit ''_resume.json'') (map (\<lambda>c. if c = 32 then 95 else c) n1)"
    "\<not> str_contains (lit ''_resume.json'') (map (\<lambda>c. if c = 32 then 95 else c) n2)"
    "\<not> str_contains (lit ''_resume.json'') (map (\<lambda>c. if c = 32 then 95 else c) n3)" by blast+
  from save_into_store [OF l0 s1] obtain fs1 where
    l1: "os_listdir (disk w1) SAVE_DIR = Inr fs1" and f1: "set fs1 = {?e n1}" by auto
  from save_into_store [OF l1 s2] obtain fs2 where
    l2: "os_listdir (disk w2) SAVE_DIR = Inr fs2" and f2: "set fs2 = {?e n2, ?e n1}"
    using f1 by auto
  from save_into_store [OF l2 s3] obtain fs3 where
    l3: "os_listdir (disk w3) SAVE_DIR = Inr fs3" and f3: "set fs3 = {?e n3, ?e n2, ?e n1}"
    using f2 by auto
  have e: "endswith (?e n) (lit ''_resume.json'')" for n
    unfolding endswith_append by blast
  have t: "take (length (?e n) - length (lit ''_resume.json'')) (?e n) =
             map (\<lambda>c. if c = 32 then 95 else c) n" for n
    by simp
  have d: "spec_display_name (?e n) = spec_reconstructed n" for n
    unfolding spec_display_name_def t spec_reconstructed_def ..
  have "\<forall>f\<in>set fs3. endswith f (lit ''_resume.json'') \<longrightarrow>
           \<not> str_contains (lit ''_resume.json'') (take (length f - length (lit ''_resume.json'')) f)"
    unfolding f3 using c t by simp
  from get_saved_resumes_spec [OF l3 this]
  have g: "get_saved_resumes w3 =
      Inr (map spec_display_name (filter (\<lambda>f. endswith f (lit ''_resume.json'')) fs3))" .
  have "{f \<in> set fs3. endswith f (lit ''_resume.json'')} = {?e n3, ?e n2, ?e n1}"
    unfolding f3 using e by blast
  then have "set (map spec_display_name (filter (\<lambda>f. endswith f (lit ''_resume.json'')) fs3)) =
          {spec_reconstructed n1, spec_reconstructed n2, spec_reconstructed n3}"
    using d by auto
  with g show "\<exists>names. get_saved_resumes w3 = Inr names \<and>
         set names = {spec_reconstructed n1, spec_reconstructed n2, spec_reconstructed n3}"
    by blast
qed

theorem C8_listing_witness:
  "os_listdir (disk corrupt_world) SAVE_DIR = Inr [lit ''x_resume.json''] \<and>
   get_saved_resumes corrupt_world = Inr [lit ''x''] \<and>
   os_listdir (disk fresh_world) SAVE_DIR = Inr [] \<and>
   (\<exists>names. get_saved_resumes (after_saves [lit ''Jane Doe'', lit ''a_b'', lit ''c'']) = Inr names \<and>
      set names = {lit ''Jane Doe'', lit ''a b'', lit ''c''})"
proof -
  note T = C8_listing [of corrupt_world "[lit ''x_resume.json'']" fresh_world
      "lit ''Jane Doe''" "lit ''a_b''" "lit ''c''"
      _ _ example_json jane "after_saves [lit ''Jane Doe'']"
      _ _ jane "after_saves [lit ''Jane Doe'', lit ''a_b'']"
      _ _ jane "after_saves [lit ''Jane Doe'', lit ''a_b'', lit ''c'']"]
  have lx: "os_listdir (disk corrupt_world) SAVE_DIR = Inr [lit ''x_resume.json'']"
    by (simp add: os_listdir_def resolve_def corrupt_world_def fresh_disk_def app_dir_def
          node_at_def SAVE_DIR_def lit_def)
  have bx: "\<forall>f\<in>set [lit ''x_resume.json'']. endswith f (lit ''_resume.json'') \<longrightarrow>
            \<not> str_contains (lit ''_resume.json'')
                (take (length f - length (lit ''_resume.json'')) f)"
    by (simp add: lit_def)
  from T lx bx have "get_saved_resumes corrupt_world =
      Inr (map spec_display_name
             (filter (\<lambda>f. endswith f (lit ''_resume.json'')) [lit ''x_resume.json'']))"
    by blast
  then have gx: "get_saved_resumes corrupt_world = Inr [lit ''x'']"
    by (simp add: spec_display_name_def endswith_def lit_def)
  have l0: "os_listdir (disk fresh_world) SAVE_DIR = Inr []"
    by (simp add: fresh_world_simps fresh_listdir)
  have n: "47 \<notin> set (lit ''Jane Doe'')" "47 \<notin> set (lit ''a_b'')" "47 \<notin> set (lit ''c'')"
    by (simp_all add: lit_def)
  have c: "\<not> str_contains (lit ''_resume.json'') (map (\<lambda>c. if c = 32 then 95 else c) (lit ''Jane Doe''))"
    "\<not> str_contains (lit ''_resume.json'') (map (\<lambda>c. if c = 32 then 95 else c) (lit ''a_b''))"
    "\<not> str_contains (lit ''_resume.json'') (map (\<lambda>c. if c = 32 then 95 else c) (lit ''c''))"
    by (simp_all add: lit_def)
  have "\<exists>p d. open_w (disk fresh_world) (resume_filename (lit ''Jane Doe'')) = Inr (p, d)"
    by (simp add: eval_defs)
  then obtain p1 d1 where
    o1: "open_w (disk fresh_world) (resume_filename (lit ''Jane Doe'')) = Inr (p1, d1)" by blast
  have s1: "save_resume_data example_json fresh_world (lit ''Jane Doe'') jane =
              Inr (after_saves [lit ''Jane Doe''])"
    using after_saves_snoc [of "[]" "lit ''Jane Doe''"] by (simp add: after_saves_Nil)
  have "\<exists>p d. open_w (disk (after_saves [lit ''Jane Doe''])) (resume_filename (lit ''a_b'')) =
          Inr (p, d)"
    by (simp add: after_saves_def eval_defs)
  then obtain p2 d2 where
    o2: "open_w (disk (after_saves [lit ''Jane Doe''])) (resume_filename (lit ''a_b'')) =
          Inr (p2, d2)" by blast
  have s2: "save_resume_data example_json (after_saves [lit ''Jane Doe'']) (lit ''a_b'') jane =
              Inr (after_saves [lit ''Jane Doe'', lit ''a_b''])"
    using after_saves_snoc [of "[lit ''Jane Doe'']" "lit ''a_b''"] by simp
  have "\<exists>p d. open_w (disk (after_saves [lit ''Jane Doe'', lit ''a_b'']))
                 (resume_filename (lit ''c'')) = Inr (p, d)"
    by (simp add: after_saves_def eval_defs)
  then obtain p3 d3 where
    o3: "open_w (disk (after_saves [lit ''Jane Doe'', lit ''a_b''])) (resume_filename (lit ''c'')) =
          Inr (p3, d3)" by blast
  have s3: "save_resume_data example_json (after_saves [lit ''Jane Doe'', lit ''a_b''])
              (lit ''c'') jane = Inr (after_saves [lit ''Jane Doe'', lit ''a_b'', lit ''c''])"
    using after_saves_snoc [of "[lit ''Jane Doe'', lit ''a_b'']" "lit ''c''"] by simp
  from T [of p1 d1 p2 d2 p3 d3] l0 n c o1 s1 o2 s2 o3 s3
  have "\<exists>names. get_saved_resumes (after_saves [lit ''Jane Doe'', lit ''a_b'', lit ''c'']) =
          Inr names \<and>
        set names = {spec_reconstructed (lit ''Jane Doe''), spec_reconstructed (lit ''a_b''),
                     spec_reconstructed (lit ''c'')}"
    by blast
  moreover have "spec_reconstructed (lit ''Jane Doe'') = lit ''Jane Doe''"
    "spec_reconstructed (lit ''a_b'') = lit ''a b''" "spec_reconstructed (lit ''c'') = lit ''c''"
    by (simp_all add: spec_reconstructed_def lit_def)
  ultimately have g3: "\<exists>names. get_saved_resumes (after_saves [lit ''Jane Doe'', lit ''a_b'', lit ''c'']) =
          Inr names \<and> set names = {lit ''Jane Doe'', lit ''a b'', lit ''c''}"
    by simp
  from lx gx l0 g3 show ?thesis by blast
qed

text \<open>
  The claim as stated fails after the three saves under \<open>a\<close>, \<open>b\<close> and \<open>/tmp/c\<close>
  into the empty store of the start state: the normalised names are distinct and every
  save stores its record, but the third record lies in \<open>/tmp\<close>, and the list holds two
  names.
\<close>

theorem C8_listing_counterexample:
  "os_listdir (disk fresh_world) SAVE_DIR = Inr [] \<and>
   node_at (disk (after_saves [lit ''a'', lit ''b'', lit ''/tmp/c''])) [lit ''tmp'', lit ''c_resume.json'']
     = Some (File jane_document) \<and>
   get_saved_resumes (after_saves [lit ''a'', lit ''b'', lit ''/tmp/c'']) = Inr [lit ''a'', lit ''b''] \<and>
   spec_reconstructed (lit ''/tmp/c'') = lit ''/tmp/c'' \<and>
   lit ''/tmp/c'' \<notin> set [lit ''a'', lit ''b'']"
proof -
  have l0: "os_listdir (disk fresh_world) SAVE_DIR = Inr []"
    by (simp add: fresh_world_simps fresh_listdir)
  have d: "disk (after_saves [lit ''a'', lit ''b'', lit ''/tmp/c'']) =
     fresh_disk\<lparr>nodes := nodes fresh_disk
       @ [(app_dir @ [lit ''saves'', lit ''a_resume.json''], File jane_document),
          (app_dir @ [lit ''saves'', lit ''b_resume.json''], File jane_document),
          ([lit ''tmp'', lit ''c_resume.json''], File jane_document)]\<rparr>"
    by (simp add: after_saves_def eval_defs)
  have n: "node_at (disk (after_saves [lit ''a'', lit ''b'', lit ''/tmp/c'']))
             [lit ''tmp'', lit ''c_resume.json''] = Some (File jane_document)"
    unfolding d by (simp add: node_at_def fresh_disk_def app_dir_def lit_def)
  have l: "os_listdir (disk (after_saves [lit ''a'', lit ''b'', lit ''/tmp/c''])) SAVE_DIR =
             Inr [lit ''a_resume.json'', lit ''b_resume.json'']"
    unfolding d
    by (simp add: os_listdir_def resolve_def fresh_disk_def app_dir_def node_at_def SAVE_DIR_def
          lit_def)
  have g: "get_saved_resumes (after_saves [lit ''a'', lit ''b'', lit ''/tmp/c'']) =
             Inr [lit ''a'', lit ''b'']"
    by (simp add: get_saved_resumes_def l) (simp add: str_replace_def endswith_def lit_def)
  have r: "spec_reconstructed (lit ''/tmp/c'') = lit ''/tmp/c''"
    by (simp add: spec_reconstructed_def lit_def)
  have m: "lit ''/tmp/c'' \<notin> set [lit ''a'', lit ''b'']"
    by (simp add: lit_def)
  from l0 n g r m show ?thesis by blast
qed

subsection \<open>Claim C9\<close>

text \<open>
  Claim C9, as it holds of the code. \<open>download_resume\<close> raises \<open>NotFound\<close> (HTTP 404) when nothing
  exists at the path obtained by joining the store directory and the requested
  filename, and answers with the file as an attachment when a readable file exists at
  that path.
\<close>

theorem C9_download_found_or_404:
  "(\<not> os_path_exists (disk w) (os_path_join SAVE_DIR filename) \<longrightarrow>
      download_resume w filename = Inl NotFound)
   \<and> (resolve (disk w) (os_path_join SAVE_DIR filename) = Inr p
        \<and> node_at (disk w) p = Some (File b) \<and> \<not> deny_read (disk w) p \<longrightarrow>
      download_resume w filename =
        Inr (Attachment (last (str_split (os_path_join SAVE_DIR filename) 47)) b))"
  using download_absent [of w filename] download_serves [of w filename p b] by blast

theorem C9_download_witness:
  "\<not> os_path_exists (disk fresh_world) (os_path_join SAVE_DIR (lit ''missing_resume.json'')) \<and>
   download_resume fresh_world (lit ''missing_resume.json'') = Inl NotFound \<and>
   download_resume corrupt_world (lit ''x_resume.json'') =
     Inr (Attachment (lit ''x_resume.json'') [129])"
proof -
  have j1: "os_path_join SAVE_DIR (lit ''missing_resume.json'') = lit ''saves/missing_resume.json''"
    by (simp add: os_path_join_def SAVE_DIR_def endswith_def lit_def)
  have e: "\<not> os_path_exists (disk fresh_world) (os_path_join SAVE_DIR (lit ''missing_resume.json''))"
    by (simp add: j1 os_path_exists_def missing_resolve fresh_world_simps)
       (simp add: fresh_disk_def app_dir_def node_at_def lit_def)
  have j2: "os_path_join SAVE_DIR (lit ''x_resume.json'') = lit ''saves/x_resume.json''"
    by (simp add: os_path_join_def SAVE_DIR_def endswith_def lit_def)
  have r: "resolve (disk corrupt_world) (os_path_join SAVE_DIR (lit ''x_resume.json'')) =
             Inr (app_dir @ [lit ''saves'', lit ''x_resume.json''])"
    by (simp add: j2 x_resolve)
  have n: "node_at (disk corrupt_world) (app_dir @ [lit ''saves'', lit ''x_resume.json'']) =
             Some (File [129])"
    by (simp add: corrupt_world_def fresh_disk_def app_dir_def node_at_def lit_def)
  have d: "\<not> deny_read (disk corrupt_world) (app_dir @ [lit ''saves'', lit ''x_resume.json''])"
    by (simp add: corrupt_world_def fresh_disk_def)
  have l: "last (str_split (os_path_join SAVE_DIR (lit ''x_resume.json'')) 47) = lit ''x_resume.json''"
    by (simp add: j2) (simp add: lit_def)
  from C9_download_found_or_404 [of fresh_world "lit ''missing_resume.json''"] e
  have a: "download_resume fresh_world (lit ''missing_resume.json'') = Inl NotFound"
    by blast
  from C9_download_found_or_404 [of corrupt_world "lit ''x_resume.json''"
      "app_dir @ [lit ''saves'', lit ''x_resume.json'']" "[129]"] r n d
  have "download_resume corrupt_world (lit ''x_resume.json'') =
     Inr (Attachment (last (str_split (os_path_join SAVE_DIR (lit ''x_resume.json'')) 47)) [129])"
    by blast
  then have b: "download_resume corrupt_world (lit ''x_resume.json'') =
     Inr (Attachment (lit ''x_resume.json'') [129])"
    unfolding l .
  from e a b show ?thesis by blast
qed

text \<open>
  The claim as stated, for every filename that names no file in the store directory,
  fails in the start state, where the store directory is empty: for \<open>../app.py\<close> the
  joined path leads out of the store directory to the application's source, which is
  served; for \<open>..\<close>, a single segment of a URL, the path exists as a directory and
  \<open>send_file\<close> raises \<open>IsADirectoryError\<close>, which is neither the 404 nor an
  attachment.
\<close>

theorem C9_download_counterexample:
  "os_listdir (disk fresh_world) SAVE_DIR = Inr [] \<and>
   download_resume fresh_world (lit ''../app.py'') =
     Inr (Attachment (lit ''app.py'') (lit ''import os'')) \<and>
   download_resume fresh_world (lit ''..'') = Inl IsADirectoryError"
proof -
  have a: "os_listdir (disk fresh_world) SAVE_DIR = Inr []"
    by (simp add: fresh_world_simps fresh_listdir)
  have n: "node_at fresh_disk (app_dir @ [lit ''app.py'']) = Some (File (lit ''import os''))"
    by (simp add: fresh_disk_def app_dir_def node_at_def lit_def)
  have b: "download_resume fresh_world (lit ''../app.py'') =
     Inr (Attachment (lit ''app.py'') (lit ''import os''))"
    using n
    by (simp add: download_resume_def dotdot_app_join os_path_exists_def send_file_def open_r_def
          dotdot_app_resolve fresh_world_simps)
       (simp add: fresh_disk_def lit_def)
  have j: "os_path_join SAVE_DIR (lit ''..'') = lit ''saves/..''"
    by (simp add: os_path_join_def SAVE_DIR_def endswith_def lit_def)
  have r: "resolve fresh_disk (lit ''saves/..'') = Inr app_dir"
    by (simp add: resolve_def fresh_disk_def app_dir_def node_at_def lit_def)
  have m: "node_at fresh_disk app_dir = Some Dir"
    by (simp add: fresh_disk_def app_dir_def node_at_def lit_def)
  have c: "download_resume fresh_world (lit ''..'') = Inl IsADirectoryError"
    by (simp add: download_resume_def j os_path_exists_def send_file_def open_r_def r m
          fresh_world_simps)
  from a b c show ?thesis by blast
qed

subsection \<open>Claim C10\<close>

text \<open>
  Claim C10. \<open>download_resume\<close> serves the readable file at the joined path wherever
  that path leads, and the path can lead out of the store directory: a filename that
  starts with a slash replaces the store directory in \<open>os.path.join\<close>, and a filename
  \<open>../x\<close> resolves to \<open>x\<close> in the working directory, beside the store directory.
\<close>

theorem C10_download_no_containment:
  "(resolve (disk w) (os_path_join SAVE_DIR filename) = Inr p
      \<and> node_at (disk w) p = Some (File b) \<and> \<not> deny_read (disk w) p \<longrightarrow>
    download_resume w filename =
      Inr (Attachment (last (str_split (os_path_join SAVE_DIR filename) 47)) b))
   \<and> (startswith filename (lit ''/'') \<longrightarrow> os_path_join SAVE_DIR filename = filename)
   \<and> (node_at d (cwd d) = Some Dir \<and> node_at d (cwd d @ [SAVE_DIR]) = Some Dir
        \<and> 47 \<notin> set x \<and> 0 \<notin> set x \<and> x \<noteq> [] \<and> x \<noteq> lit ''.'' \<and> x \<noteq> lit ''..'' \<longrightarrow>
      resolve d (os_path_join SAVE_DIR (lit ''../'' @ x)) = Inr (cwd d @ [x]))"
  using download_serves [of w filename p b] join_absolute [of filename] resolve_dotdot [of d x]
  by blast

theorem C10_download_witness:
  "resolve fresh_disk (os_path_join SAVE_DIR (lit ''../app.py'')) = Inr (app_dir @ [lit ''app.py'']) \<and>
   download_resume fresh_world (lit ''../app.py'') =
     Inr (Attachment (lit ''app.py'') (lit ''import os'')) \<and>
   os_path_join SAVE_DIR (lit ''/srv/resume/app.py'') = lit ''/srv/resume/app.py'' \<and>
   download_resume fresh_world (lit ''/srv/resume/app.py'') =
     Inr (Attachment (lit ''app.py'') (lit ''import os''))"
proof -
  let ?p = "app_dir @ [lit ''app.py'']"
  have c: "cwd fresh_disk = app_dir"
    by (simp add: fresh_disk_def)
  have n0: "node_at fresh_disk (cwd fresh_disk) = Some Dir"
           "node_at fresh_disk (cwd fresh_disk @ [SAVE_DIR]) = Some Dir"
    by (simp_all add: fresh_disk_def app_dir_def node_at_def SAVE_DIR_def lit_def)
  have x: "47 \<notin> set (lit ''app.py'')" "0 \<notin> set (lit ''app.py'')" "lit ''app.py'' \<noteq> []"
          "lit ''app.py'' \<noteq> lit ''.''" "lit ''app.py'' \<noteq> lit ''..''"
    by (simp_all add: lit_def)
  have e: "lit ''../'' @ lit ''app.py'' = lit ''../app.py''"
    by (simp add: lit_def)
  from C10_download_no_containment [of fresh_world "lit ''../app.py''" ?p "lit ''import os''"
      fresh_disk "lit ''app.py''"] n0 x
  have "resolve fresh_disk (os_path_join SAVE_DIR (lit ''../'' @ lit ''app.py'')) =
          Inr (cwd fresh_disk @ [lit ''app.py''])"
    by blast
  then have r: "resolve fresh_disk (os_path_join SAVE_DIR (lit ''../app.py'')) = Inr ?p"
    unfolding e c .
  have n: "node_at (disk fresh_world) ?p = Some (File (lit ''import os''))"
    by (simp add: fresh_world_simps) (simp add: fresh_disk_def app_dir_def node_at_def lit_def)
  have dr: "\<not> deny_read (disk fresh_world) ?p"
    by (simp add: fresh_world_def fresh_disk_def)
  have l1: "last (str_split (os_path_join SAVE_DIR (lit ''../app.py'')) 47) = lit ''app.py''"
    by (simp add: dotdot_app_join) (simp add: lit_def)
  from C10_download_no_containment [of fresh_world "lit ''../app.py''" ?p "lit ''import os''"]
    r n dr
  have "download_resume fresh_world (lit ''../app.py'') =
      Inr (Attachment (last (str_split (os_path_join SAVE_DIR (lit ''../app.py'')) 47))
             (lit ''import os''))"
    by (simp add: fresh_world_simps)
  then have a: "download_resume fresh_world (lit ''../app.py'') =
     Inr (Attachment (lit ''app.py'') (lit ''import os''))"
    unfolding l1 .
  have s: "startswith (lit ''/srv/resume/app.py'') (lit ''/'')"
    by (simp add: lit_def)
  from C10_download_no_containment [of _ "lit ''/srv/resume/app.py''"] s
  have j: "os_path_join SAVE_DIR (lit ''/srv/resume/app.py'') = lit ''/srv/resume/app.py''"
    by blast
  have r2: "resolve (disk fresh_world) (os_path_join SAVE_DIR (lit ''/srv/resume/app.py'')) = Inr ?p"
    by (simp add: j fresh_world_simps)
       (simp add: resolve_def fresh_disk_def app_dir_def node_at_def lit_def)
  have l2: "last (str_split (os_path_join SAVE_DIR (lit ''/srv/resume/app.py'')) 47) = lit ''app.py''"
    by (simp add: j) (simp add: lit_def)
  from C10_download_no_containment [of fresh_world "lit ''/srv/resume/app.py''" ?p
      "lit ''import os''"] r2 n dr
  have "download_resume fresh_world (lit ''/srv/resume/app.py'') =
      Inr (Attachment (last (str_split (os_path_join SAVE_DIR (lit ''/srv/resume/app.py'')) 47))
             (lit ''import os''))"
    by blast
  then have b: "download_resume fresh_world (lit ''/srv/resume/app.py'') =
     Inr (Attachment (lit ''app.py'') (lit ''import os''))"
    unfolding l2 .
  from r a j b show ?thesis by blast
qed

end
